theory Spec2Isabelle
  imports Complex_Main "HOL-Library.Word" "HOL-Library.Sublist" "HOL-Library.List_Lexorder" "HOL-Library.Char_ord"
begin

section \<open>Tiered cache core: CacheSlot.h\<close>

text \<open>
  The slot is modelled sequentially: one caller runs \<open>PinCells\<close>, \<open>PinInternal\<close>,
  \<open>RunLoad\<close> or \<open>Warmup\<close> to completion. Every call that leaves the slot (a pin on a
  cell, a reservation on the budget, the Translator's bulk load, a release) is appended to
  a trace, so that the order of these calls can be stated.
\<close>

type_synonym cid_t = nat
type_synonym uid_t = nat

datatype ErrorCode =
    OutOfRange | InsufficientResource | DataTypeInvalid | OpTypeInvalid
  | Unsupported | FileReadFailed | InvalidParameter | Unknown

record ResourceUsage =
  memory_bytes :: int
  file_bytes :: int

text \<open>\<open>ResourceUsage::operator+=\<close> and \<open>operator-=\<close>, componentwise.\<close>

definition usage_add :: "ResourceUsage \<Rightarrow> ResourceUsage \<Rightarrow> ResourceUsage" where
  "usage_add a b =
     \<lparr>memory_bytes = memory_bytes a + memory_bytes b, file_bytes = file_bytes a + file_bytes b\<rparr>"

definition usage_sub :: "ResourceUsage \<Rightarrow> ResourceUsage \<Rightarrow> ResourceUsage" where
  "usage_sub a b =
     \<lparr>memory_bytes = memory_bytes a - memory_bytes b, file_bytes = file_bytes a - file_bytes b\<rparr>"

definition usage_zero :: ResourceUsage where
  "usage_zero = \<lparr>memory_bytes = 0, file_bytes = 0\<rparr>"

datatype State = NOT_LOADED | LOADING | LOADED | ERROR

datatype CacheWarmupPolicy =
    CacheWarmupPolicy_Disable
  | CacheWarmupPolicy_Sync
  | CacheWarmupPolicy_Other nat
  \<comment> \<open>a C enum can hold a value that is none of its enumerators\<close>

datatype CellIdMappingMode = IDENTICAL | ALWAYS_ZERO | CUSTOM

record 'cell CacheCell =
  state :: State
  pin_count :: nat
  cell_size :: ResourceUsage
  cell :: "'cell option"
  error :: "ErrorCode option"

text \<open>The Translator is an external collaborator: a record of the functions of its contract.\<close>

record 'cell Translator =
  num_cells :: nat
  estimated_byte_size_of_cell :: "cid_t \<Rightarrow> ResourceUsage"
  translator_cell_id_of :: "uid_t \<Rightarrow> cid_t"
  get_cells :: "cid_t list \<Rightarrow> ErrorCode + (cid_t \<times> 'cell) list"
  cache_warmup_policy :: CacheWarmupPolicy
  cell_id_mapping_mode :: CellIdMappingMode

record DList =
  used :: ResourceUsage
  limit :: ResourceUsage

datatype event =
    EvPin cid_t
  | EvUnpin cid_t
  | EvReserve ResourceUsage bool
  | EvGetCells "cid_t list"
  | EvSetCell cid_t bool
  | EvSetError cid_t ErrorCode
  | EvRelease ResourceUsage

record 'cell CacheSlot =
  cells :: "'cell CacheCell list"
  mapping_mode :: CellIdMappingMode
  dlist :: "DList option"
  trace :: "event list"

datatype PinResult = Threw ErrorCode | Pending | Accessor "cid_t list"

subsection \<open>The budget and the cell state machine\<close>

text \<open>
  Modelled from the spec: \<open>DList::reserveMemoryWithTimeout\<close> and \<open>DList::releaseMemory\<close>
  (cachinglayer/lrucache/DList.h is not among the sources). Section 4.1: the reservation
  returns true when both dimensions have been debited without exceeding the limit, it is
  all-or-nothing, and on failure it returns false without debit; release returns the
  amount to the pool. Eviction and the timed wait, which can only turn a failure
  into a success, are not modelled.
\<close>

definition reserveMemoryWithTimeout :: "DList \<Rightarrow> ResourceUsage \<Rightarrow> bool \<times> DList" where
  "reserveMemoryWithTimeout d need =
     (if memory_bytes (used d) + memory_bytes need \<le> memory_bytes (limit d)
         \<and> file_bytes (used d) + file_bytes need \<le> file_bytes (limit d)
      then (True, d\<lparr>used := usage_add (used d) need\<rparr>)
      else (False, d))"

definition releaseMemory :: "DList \<Rightarrow> ResourceUsage \<Rightarrow> DList" where
  "releaseMemory d amount = d\<lparr>used := usage_sub (used d) amount\<rparr>"

text \<open>
  Modelled from the spec: \<open>ListNode::pin\<close>, \<open>ListNode::mark_loaded\<close>,
  \<open>ListNode::set_error\<close> and the destructor of \<open>NodePin\<close>
  (cachinglayer/lrucache/ListNode.h is not among the sources). Section 4.2: a pin on
  NOT_LOADED moves the cell to LOADING and makes the caller the requester
  (\<open>need_load\<close>); a pin on LOADING or LOADED only adds a pin; ERROR is reset to
  NOT_LOADED on the next pin attempt; \<open>set_cell\<close> moves LOADING to LOADED and is
  idempotent on a LOADED cell; \<open>set_error\<close> moves LOADING to ERROR and resets the pin
  count; dropping a pin decrements the pin count.
\<close>

definition pin :: "'cell CacheCell \<Rightarrow> bool \<times> 'cell CacheCell" where
  "pin c =
     (case state c of
        NOT_LOADED \<Rightarrow> (True, c\<lparr>state := LOADING, pin_count := pin_count c + 1\<rparr>)
      | ERROR \<Rightarrow> (True, c\<lparr>state := LOADING, pin_count := pin_count c + 1, error := None\<rparr>)
      | LOADING \<Rightarrow> (False, c\<lparr>pin_count := pin_count c + 1\<rparr>)
      | LOADED \<Rightarrow> (False, c\<lparr>pin_count := pin_count c + 1\<rparr>))"

definition mark_loaded :: "'cell CacheCell \<Rightarrow> 'cell \<Rightarrow> bool \<Rightarrow> 'cell CacheCell" where
  "mark_loaded c payload requesting_thread =
     (if state c = LOADED then c
      else c\<lparr>state := LOADED, cell := Some payload, error := None\<rparr>)"

definition node_set_error :: "'cell CacheCell \<Rightarrow> ErrorCode \<Rightarrow> 'cell CacheCell" where
  "node_set_error c ew =
     (if state c = LOADING then c\<lparr>state := ERROR, pin_count := 0, error := Some ew\<rparr>
      else c)"

definition unpin :: "'cell CacheCell \<Rightarrow> 'cell CacheCell" where
  "unpin c = c\<lparr>pin_count := pin_count c - 1\<rparr>"

subsection \<open>CacheSlot\<close>

text \<open>The constructor: one cell per cid, sized by the Translator's estimate.\<close>

definition CacheSlot_new :: "'cell Translator \<Rightarrow> DList option \<Rightarrow> 'cell CacheSlot" where
  "CacheSlot_new translator dl =
     \<lparr>cells = map (\<lambda>i. \<lparr>state = NOT_LOADED, pin_count = 0,
                          cell_size = estimated_byte_size_of_cell translator i,
                          cell = None, error = None\<rparr>) [0..<num_cells translator],
      mapping_mode = cell_id_mapping_mode translator,
      dlist = dl,
      trace = []\<rparr>"

definition cell_id_of :: "'cell Translator \<Rightarrow> 'cell CacheSlot \<Rightarrow> uid_t \<Rightarrow> cid_t" where
  "cell_id_of translator s uid =
     (case mapping_mode s of
        IDENTICAL \<Rightarrow> uid
      | ALWAYS_ZERO \<Rightarrow> 0
      | CUSTOM \<Rightarrow> translator_cell_id_of translator uid)"

text \<open>
  \<open>CacheCell::set_cell\<close> and \<open>CacheCell::set_error\<close> on the cell at an index. The C++
  indexes \<open>cells\<close> unchecked; the model leaves the slot as it is when the index is not
  one of the slot's cells.
\<close>

definition set_cell :: "'cell CacheSlot \<Rightarrow> cid_t \<Rightarrow> 'cell \<Rightarrow> bool \<Rightarrow> 'cell CacheSlot" where
  "set_cell s cid payload requesting_thread =
     (if cid < length (cells s)
      then s\<lparr>cells := (cells s)[cid := mark_loaded (cells s ! cid) payload requesting_thread],
             trace := trace s @ [EvSetCell cid requesting_thread]\<rparr>
      else s)"

definition set_error :: "'cell CacheSlot \<Rightarrow> cid_t \<Rightarrow> ErrorCode \<Rightarrow> 'cell CacheSlot" where
  "set_error s cid ew =
     (if cid < length (cells s)
      then s\<lparr>cells := (cells s)[cid := node_set_error (cells s ! cid) ew],
             trace := trace s @ [EvSetError cid ew]\<rparr>
      else s)"

text \<open>The loop over the Translator's results, and the loop of the catch block.\<close>

fun set_cells :: "'cell CacheSlot \<Rightarrow> (cid_t \<times> 'cell) list \<Rightarrow> cid_t list \<Rightarrow> 'cell CacheSlot" where
  "set_cells s [] cids = s"
| "set_cells s (result # results) cids =
     set_cells (set_cell s (fst result) (snd result) (fst result \<in> set cids)) results cids"

fun set_errors :: "'cell CacheSlot \<Rightarrow> cid_t list \<Rightarrow> ErrorCode \<Rightarrow> 'cell CacheSlot" where
  "set_errors s [] ew = s"
| "set_errors s (cid # cids) ew = set_errors (set_error s cid ew) cids ew"

text \<open>
  The try block of \<open>RunLoad\<close>: the slot as the block leaves it, the flag
  \<open>reserve_resource_failure\<close>, and the exception in flight, if any.
  \<open>cids\<close> is the \<open>unordered_set\<close> of the source as a duplicate-free list; its iteration
  order is not fixed by the source, and the theorems speak of the set of its elements only.
\<close>

definition RunLoad_try ::
  "'cell Translator \<Rightarrow> 'cell CacheSlot \<Rightarrow> cid_t list \<Rightarrow> ResourceUsage
     \<Rightarrow> 'cell CacheSlot \<times> bool \<times> ErrorCode option" where
  "RunLoad_try translator s cids resource_needed =
     (let cids_vec = cids;
          (s1, reserve_resource_failure) =
            (case dlist s of
               None \<Rightarrow> (s, False)
             | Some d \<Rightarrow>
                 (let (reservation_success, d') = reserveMemoryWithTimeout d resource_needed
                  in (s\<lparr>dlist := Some d',
                        trace := trace s @ [EvReserve resource_needed reservation_success]\<rparr>,
                      \<not> reservation_success)))
      in if reserve_resource_failure then (s1, True, Some InsufficientResource)
         else
           (let s2 = s1\<lparr>trace := trace s1 @ [EvGetCells cids_vec]\<rparr>
            in case get_cells translator cids_vec of
                 Inl e \<Rightarrow> (s2, False, Some e)
               | Inr results \<Rightarrow> (set_cells s2 results cids, False, None)))"

definition RunLoad ::
  "'cell Translator \<Rightarrow> 'cell CacheSlot \<Rightarrow> cid_t list \<Rightarrow> ResourceUsage \<Rightarrow> 'cell CacheSlot" where
  "RunLoad translator s cids resource_needed =
     (case RunLoad_try translator s cids resource_needed of
        (s', reserve_resource_failure, None) \<Rightarrow> s'
      | (s', reserve_resource_failure, Some ew) \<Rightarrow>
          (let s2 = set_errors s' cids ew
           in case dlist s2 of
                Some d \<Rightarrow>
                  if \<not> reserve_resource_failure
                  then s2\<lparr>dlist := Some (releaseMemory d resource_needed),
                          trace := trace s2 @ [EvRelease resource_needed]\<rparr>
                  else s2
              | None \<Rightarrow> s2))"

text \<open>
  The second loop of \<open>PinInternal\<close>: pin every cid, collect the cids whose pin asked for a
  load and add up the sizes of their cells.
\<close>

fun pin_each ::
  "'cell CacheSlot \<Rightarrow> cid_t list \<Rightarrow> cid_t list \<Rightarrow> ResourceUsage
     \<Rightarrow> 'cell CacheSlot \<times> cid_t list \<times> ResourceUsage" where
  "pin_each s [] need_load_cids resource_needed = (s, need_load_cids, resource_needed)"
| "pin_each s (cid # cids) need_load_cids resource_needed =
     (let (need_load, c') = pin (cells s ! cid);
          s' = s\<lparr>cells := (cells s)[cid := c'], trace := trace s @ [EvPin cid]\<rparr>
      in if need_load
         then pin_each s' cids (List.insert cid need_load_cids)
                (usage_add resource_needed (cell_size (cells s' ! cid)))
         else pin_each s' cids need_load_cids resource_needed)"

text \<open>
  \<open>SemiInlineGet(folly::collect(futures))\<close>: the pins are ready when every pinned cell is
  LOADED; a cell in ERROR makes the call throw that error; a cell that is still LOADING
  (another loader has it, or the Translator did not return it) keeps the caller waiting.
\<close>

fun collect :: "'cell CacheCell list \<Rightarrow> cid_t list \<Rightarrow> cid_t list \<Rightarrow> PinResult" where
  "collect cs [] pins = Accessor pins"
| "collect cs (cid # cids) pins =
     (case state (cs ! cid) of
        LOADED \<Rightarrow> collect cs cids (pins @ [cid])
      | ERROR \<Rightarrow> Threw (case error (cs ! cid) of Some e \<Rightarrow> e | None \<Rightarrow> Unknown)
      | _ \<Rightarrow> (case collect cs cids (pins @ [cid]) of Threw e \<Rightarrow> Threw e | _ \<Rightarrow> Pending))"

definition PinInternal ::
  "'cell Translator \<Rightarrow> 'cell CacheSlot \<Rightarrow> cid_t list \<Rightarrow> PinResult \<times> 'cell CacheSlot" where
  "PinInternal translator s cids =
     (if \<exists>cid \<in> set cids. cid \<ge> length (cells s) then (Threw OutOfRange, s)
      else
        (let (s1, need_load_cids, resource_needed) = pin_each s cids [] usage_zero;
             s2 = (if need_load_cids \<noteq> [] then RunLoad translator s1 need_load_cids resource_needed
                   else s1)
         in (collect (cells s2) cids [], s2)))"

text \<open>
  The uid to cid mapping of \<open>PinCells\<close>; \<open>involved_cids\<close> is a \<open>flat_hash_set\<close>, so a
  cid is inserted once.
\<close>

definition involved_cids_of :: "'cell Translator \<Rightarrow> 'cell CacheSlot \<Rightarrow> uid_t list \<Rightarrow> cid_t list" where
  "involved_cids_of translator s uids =
     (case mapping_mode s of
        IDENTICAL \<Rightarrow> fold (\<lambda>uid involved. List.insert uid involved) uids []
      | ALWAYS_ZERO \<Rightarrow> (if length uids > 0 then [0] else [])
      | CUSTOM \<Rightarrow> fold (\<lambda>uid involved. List.insert (cell_id_of translator s uid) involved) uids [])"

definition PinCells ::
  "'cell Translator \<Rightarrow> 'cell CacheSlot \<Rightarrow> uid_t list \<Rightarrow> PinResult \<times> 'cell CacheSlot" where
  "PinCells translator s uids = PinInternal translator s (involved_cids_of translator s uids)"

definition PinAllCells :: "'cell Translator \<Rightarrow> 'cell CacheSlot \<Rightarrow> PinResult \<times> 'cell CacheSlot" where
  "PinAllCells translator s = PinInternal translator s [0..<length (cells s)]"

text \<open>Destroying a \<open>CellAccessor\<close> destroys its pins.\<close>

fun drop_accessor :: "'cell CacheSlot \<Rightarrow> cid_t list \<Rightarrow> 'cell CacheSlot" where
  "drop_accessor s [] = s"
| "drop_accessor s (cid # pins) =
     drop_accessor (s\<lparr>cells := (cells s)[cid := unpin (cells s ! cid)],
                      trace := trace s @ [EvUnpin cid]\<rparr>) pins"


text \<open>What a trace says about the budget and the Translator.\<close>

fun get_cells_calls :: "event list \<Rightarrow> cid_t list list" where
  "get_cells_calls [] = []"
| "get_cells_calls (EvGetCells cids # t) = cids # get_cells_calls t"
| "get_cells_calls (e # t) = get_cells_calls t"

fun reservations :: "event list \<Rightarrow> ResourceUsage list" where
  "reservations [] = []"
| "reservations (EvReserve r ok # t) = r # reservations t"
| "reservations (e # t) = reservations t"

fun releases :: "event list \<Rightarrow> ResourceUsage list" where
  "releases [] = []"
| "releases (EvRelease r # t) = r # releases t"
| "releases (e # t) = releases t"

fun unpinned_cids :: "event list \<Rightarrow> cid_t list" where
  "unpinned_cids [] = []"
| "unpinned_cids (EvUnpin cid # t) = cid # unpinned_cids t"
| "unpinned_cids (e # t) = unpinned_cids t"

fun pinned_cids :: "event list \<Rightarrow> cid_t list" where
  "pinned_cids [] = []"
| "pinned_cids (EvPin cid # t) = cid # pinned_cids t"
| "pinned_cids (e # t) = pinned_cids t"

definition new_events :: "'cell CacheSlot \<Rightarrow> 'cell CacheSlot \<Rightarrow> event list" where
  "new_events s s' = drop (length (trace s)) (trace s')"





text \<open>Events that only touch a cell.\<close>

definition quiet :: "event list \<Rightarrow> bool" where
  "quiet es \<longleftrightarrow> get_cells_calls es = [] \<and> reservations es = [] \<and> releases es = []
      \<and> pinned_cids es = [] \<and> unpinned_cids es = []"

section \<open>Unary predicate executor: UnaryExpr.cpp\<close>

text \<open>
  A \<open>TargetBitmap\<close> is a list of bits. 64-bit signed counters and positions of the source
  (\<open>active_count_\<close>, \<open>batch_size_\<close>, the cursors) are integers; the model does not let
  them overflow. The literal of a predicate is a 64-bit word where it is an integer.
\<close>

type_synonym TargetBitmap = "bool list"

datatype OpType =
    Invalid | GreaterThan | GreaterEqual | LessThan | LessEqual | Equal | NotEqual
  | PrefixMatch | PostfixMatch | InnerMatch | Match | TextMatch | PhraseMatch

datatype DataType =
    NONE | BOOL | INT8 | INT16 | INT32 | INT64 | FLOAT | DOUBLE | STRING | VARCHAR
  | ARRAY | JSON | VECTOR_ARRAY

datatype ValCase = kBoolVal | kInt64Val | kFloatVal | kStringVal | kArrayVal | VAL_NOT_SET

datatype GenericValue =
    BoolVal bool
  | Int64Val "64 word"
  | FloatVal real
  | StringVal string
  | ArrayVal "GenericValue list"
  | ValNotSet

fun val_case :: "GenericValue \<Rightarrow> ValCase" where
  "val_case (BoolVal b) = kBoolVal"
| "val_case (Int64Val i) = kInt64Val"
| "val_case (FloatVal f) = kFloatVal"
| "val_case (StringVal s) = kStringVal"
| "val_case (ArrayVal a) = kArrayVal"
| "val_case ValNotSet = VAL_NOT_SET"

text \<open>The template argument \<open>T\<close> of the visitors.\<close>

datatype ElemType =
    T_bool | T_int8 | T_int16 | T_int32 | T_int64 | T_float | T_double
  | T_string | T_string_view | T_Array

record ColumnVector =
  data :: TargetBitmap
  valid_data :: TargetBitmap

record EvalCtx =
  offset_input :: "int list option"
  bitmap_input :: TargetBitmap

text \<open>
  The state of the base class \<open>SegmentExpr\<close> that the methods of UnaryExpr.cpp read or
  write, and the cursors that the base class keeps for its chunk loops.
\<close>

record SegmentExpr =
  active_count :: int
  batch_size :: int
  current_data_global_pos :: int
  current_data_chunk :: int
  current_data_chunk_pos :: int
  current_index_chunk :: int
  current_index_chunk_pos :: int
  is_index_mode :: bool
  use_index :: bool
  has_offset_input :: bool

datatype ExecCall =
    TextIndex_MatchQuery string
  | TextIndex_PhraseMatchQuery string "32 word"
  | TextIndex_IsNotNull
  | NgramIndex_ExecuteQuery string OpType
  | NgramIndex_IsNotNull
  | ScalarIndex_Scan
  | JsonKeyIndex_Scan
  | ArrayIndex_Scan
  | Data_Scan
  | Valid_Scan

record PhyUnaryRangeFilterExpr =
  base :: SegmentExpr
  op_type :: OpType
  column_data_type :: DataType
  column_element_type :: DataType
  nested_path :: "string list"
  val :: GenericValue
  extra_values :: "GenericValue list"
  arg_inited :: bool
  value_arg :: GenericValue
  overflow_check_pos :: int
  cached_match_res :: "TargetBitmap option"
  cached_ngram_match_res :: "TargetBitmap option"
  cached_index_chunk_valid_res :: TargetBitmap
  calls :: "ExecCall list"

text \<open>
  A double is the real number it stands for. \<open>static_cast<double>\<close> of a 64-bit integer
  gives the nearest double, ties to the even significand of 53 bits: integers of at most
  53 bits are exact, larger ones are rounded. Infinities and NaN are not modelled.
\<close>

fun bit_length :: "nat \<Rightarrow> nat" where
  "bit_length n = (if n = 0 then 0 else Suc (bit_length (n div 2)))"

declare bit_length.simps [simp del]

definition double_of_int :: "int \<Rightarrow> real" where
  "double_of_int n =
     (let a = \<bar>n\<bar>; k = bit_length (nat a)
      in if k \<le> 53 then of_int n
         else
           (let sh = k - 53;
                q = a div 2 ^ sh;
                r = a mod 2 ^ sh;
                half = 2 ^ (sh - 1);
                q' = (if r > half \<or> (r = half \<and> odd q) then q + 1 else q)
            in of_int (sgn n * q' * 2 ^ sh)))"

text \<open>
  Modelled from the spec: \<open>milvus::Json\<close>, the JSON documents (common/Json.h is not among
  the sources). Section 4.6.3: the scan resolves the JSON pointer at each row, and the lookup
  can fail. A pointer is the list of its keys (\<open>nested_path_\<close>); a step into anything
  but an object fails. \<open>at<T>\<close> fails when the value found is not of type \<open>T\<close>: a
  JSON integer is read as an int64 when it is in the range of an int64, and as a double
  (the nearest one) always; a JSON double cannot be read as an int64.
\<close>

datatype Json =
    JNull | JBool bool | JInt int | JDouble real | JString string
  | JArray "Json list" | JObject "(string \<times> Json) list"

fun at_pointer :: "Json \<Rightarrow> string list \<Rightarrow> Json option" where
  "at_pointer j [] = Some j"
| "at_pointer (JObject kvs) (k # ks) =
     (case map_of kvs k of None \<Rightarrow> None | Some v \<Rightarrow> at_pointer v ks)"
| "at_pointer j (k # ks) = None"

definition at_bool :: "Json \<Rightarrow> string list \<Rightarrow> bool option" where
  "at_bool j p = (case at_pointer j p of Some (JBool b) \<Rightarrow> Some b | _ \<Rightarrow> None)"

definition at_int64 :: "Json \<Rightarrow> string list \<Rightarrow> int option" where
  "at_int64 j p =
     (case at_pointer j p of
        Some (JInt i) \<Rightarrow> if - (2 ^ 63) \<le> i \<and> i < 2 ^ 63 then Some i else None
      | _ \<Rightarrow> None)"

definition at_double :: "Json \<Rightarrow> string list \<Rightarrow> real option" where
  "at_double j p =
     (case at_pointer j p of
        Some (JDouble d) \<Rightarrow> Some d
      | Some (JInt i) \<Rightarrow> Some (double_of_int i)
      | _ \<Rightarrow> None)"

definition at_string :: "Json \<Rightarrow> string list \<Rightarrow> string option" where
  "at_string j p = (case at_pointer j p of Some (JString s) \<Rightarrow> Some s | _ \<Rightarrow> None)"

definition get_array :: "Json \<Rightarrow> string list \<Rightarrow> Json list option" where
  "get_array j p = (case at_pointer j p of Some (JArray a) \<Rightarrow> Some a | _ \<Rightarrow> None)"

text \<open>
  Modelled from the spec: \<open>CompareTwoJsonArray\<close> (exec/expression/Utils.h is not among
  the sources). Section 4.6.3: array deep equality; section 9: integer against floating
  point widens to double, a string never equals a number.
\<close>

fun json_equals_value :: "Json \<Rightarrow> GenericValue \<Rightarrow> bool" where
  "json_equals_value (JBool b) (BoolVal c) = (b = c)"
| "json_equals_value (JInt i) (Int64Val c) = (i = sint c)"
| "json_equals_value (JInt i) (FloatVal c) = (double_of_int i = c)"
| "json_equals_value (JDouble d) (Int64Val c) = (d = double_of_int (sint c))"
| "json_equals_value (JDouble d) (FloatVal c) = (d = c)"
| "json_equals_value (JString s) (StringVal c) = (s = c)"
| "json_equals_value j v = False"

definition CompareTwoJsonArray :: "Json list \<Rightarrow> GenericValue list \<Rightarrow> bool" where
  "CompareTwoJsonArray arr lit \<longleftrightarrow> list_all2 json_equals_value arr lit"

text \<open>
  The collaborators of the executor that are not in UnaryExpr.cpp: the segment and its
  indexes, and the methods of the base class \<open>SegmentExpr\<close> (exec/expression/Expr.h is
  not among the sources). They are parameters: a record of functions. The chunk loops of
  the base class return the bitmaps of the batch, the number of rows processed and the
  state of the base class after the loop. The n-gram index of a JSON column is the one of
  the nested path; the index of the array scan is the element index, -1 for the whole
  array.
\<close>

record Segment =
  is_growing :: bool
  growing_enable_mmap :: bool
  GetNextBatchSize :: "SegmentExpr \<Rightarrow> int"
  MoveCursor :: "SegmentExpr \<Rightarrow> SegmentExpr"
  SegmentExpr_CanUseIndex :: "ElemType \<Rightarrow> OpType \<Rightarrow> bool"
  CanUseNgramIndex :: bool
  CanUseNgramIndexForJson :: "string list \<Rightarrow> bool"
  HasIndex :: "DataType \<Rightarrow> bool"
  CanUseJsonKeyIndex :: bool
  index_type_allows_array :: "ElemType \<Rightarrow> bool"
  text_MatchQuery :: "string \<Rightarrow> TargetBitmap"
  text_PhraseMatchQuery :: "string \<Rightarrow> 32 word \<Rightarrow> TargetBitmap"
  text_IsNotNull :: TargetBitmap
  ngram_ExecuteQuery :: "string \<Rightarrow> OpType \<Rightarrow> TargetBitmap option"
  ngram_IsNotNull :: TargetBitmap
  ngram_json_ExecuteQuery :: "string list \<Rightarrow> string \<Rightarrow> OpType \<Rightarrow> TargetBitmap option"
  ngram_json_IsNotNull :: "string list \<Rightarrow> TargetBitmap"
  regex_match :: "string \<Rightarrow> string \<Rightarrow> bool"
  ProcessIndexChunks ::
    "ElemType \<Rightarrow> OpType \<Rightarrow> GenericValue \<Rightarrow> SegmentExpr \<Rightarrow> ErrorCode + ColumnVector \<times> SegmentExpr"
  ProcessDataChunks ::
    "ElemType \<Rightarrow> OpType \<Rightarrow> GenericValue \<Rightarrow> TargetBitmap \<Rightarrow> SegmentExpr
       \<Rightarrow> ErrorCode + ColumnVector \<times> int \<times> SegmentExpr"
  ProcessDataByOffsets ::
    "ElemType \<Rightarrow> OpType \<Rightarrow> GenericValue \<Rightarrow> TargetBitmap \<Rightarrow> int list \<Rightarrow> SegmentExpr
       \<Rightarrow> ErrorCode + ColumnVector \<times> int \<times> SegmentExpr"
  ProcessChunksForValid :: "bool \<Rightarrow> SegmentExpr \<Rightarrow> TargetBitmap \<times> SegmentExpr"
  ProcessChunksForValidByOffsets :: "bool \<Rightarrow> int list \<Rightarrow> SegmentExpr \<Rightarrow> TargetBitmap"
  JsonDataChunks :: "SegmentExpr \<Rightarrow> (Json list \<times> bool list option) \<times> SegmentExpr"
  JsonDataByOffsets :: "int list \<Rightarrow> SegmentExpr \<Rightarrow> Json list \<times> bool list option"
  JsonKeyIndexFilter ::
    "OpType \<Rightarrow> GenericValue \<Rightarrow> string list \<Rightarrow> SegmentExpr
       \<Rightarrow> ErrorCode + ColumnVector option \<times> SegmentExpr"
  ArrayDataScan ::
    "OpType \<Rightarrow> GenericValue \<Rightarrow> int \<Rightarrow> TargetBitmap \<Rightarrow> int list option \<Rightarrow> SegmentExpr
       \<Rightarrow> ErrorCode + ColumnVector \<times> int \<times> SegmentExpr"
  ArrayIndexScan ::
    "ElemType \<Rightarrow> bool \<Rightarrow> GenericValue \<Rightarrow> SegmentExpr \<Rightarrow> ErrorCode + ColumnVector \<times> SegmentExpr"

type_synonym 'a result = "(ErrorCode + 'a) \<times> PhyUnaryRangeFilterExpr"

subsection \<open>Bitmaps\<close>

text \<open>
  \<open>TargetBitmap::append(src, pos, len)\<close> appends \<open>len\<close> bits of \<open>src\<close> from \<open>pos\<close>
  on; on an empty bitmap the result is that slice. \<open>res &= valid_res\<close> on two views of
  the same length is the bitwise and; where the second operand is shorter, the C++ reads
  out of bounds and the model leaves the bits of the first operand as they are.
\<close>

definition bitmap_slice :: "TargetBitmap \<Rightarrow> int \<Rightarrow> int \<Rightarrow> TargetBitmap" where
  "bitmap_slice src pos len = take (nat len) (drop (nat pos) src)"

definition inplace_and :: "TargetBitmap \<Rightarrow> TargetBitmap \<Rightarrow> TargetBitmap" where
  "inplace_and res valid_res =
     map (\<lambda>(r, v). r \<and> v) (zip res valid_res) @ drop (length valid_res) res"

subsection \<open>Integer overflow pre-check\<close>

text \<open>
  Modelled from the spec: \<open>milvus::query::out_of_range\<close>, \<open>lt_lb\<close> and \<open>gt_ub\<close>
  (query/Utils.h is not among the sources). Section 4.6.2: the literal lies outside the
  representable range of the column type, below its minimum or above its maximum.
\<close>

definition is_integral :: "ElemType \<Rightarrow> bool" where
  "is_integral T \<longleftrightarrow> T = T_int8 \<or> T = T_int16 \<or> T = T_int32 \<or> T = T_int64"

fun numeric_limits_min :: "ElemType \<Rightarrow> int" where
  "numeric_limits_min T_int8 = - (2 ^ 7)"
| "numeric_limits_min T_int16 = - (2 ^ 15)"
| "numeric_limits_min T_int32 = - (2 ^ 31)"
| "numeric_limits_min T = - (2 ^ 63)"

fun numeric_limits_max :: "ElemType \<Rightarrow> int" where
  "numeric_limits_max T_int8 = 2 ^ 7 - 1"
| "numeric_limits_max T_int16 = 2 ^ 15 - 1"
| "numeric_limits_max T_int32 = 2 ^ 31 - 1"
| "numeric_limits_max T = 2 ^ 63 - 1"

definition lt_lb :: "ElemType \<Rightarrow> 64 word \<Rightarrow> bool" where
  "lt_lb T v \<longleftrightarrow> sint v < numeric_limits_min T"

definition gt_ub :: "ElemType \<Rightarrow> 64 word \<Rightarrow> bool" where
  "gt_ub T v \<longleftrightarrow> sint v > numeric_limits_max T"

definition out_of_range :: "ElemType \<Rightarrow> 64 word \<Rightarrow> bool" where
  "out_of_range T v \<longleftrightarrow> gt_ub T v \<or> lt_lb T v"

text \<open>
  The switch of \<open>PreCheckOverflow\<close> on the operator: \<open>res\<close> comes in all false,
  \<open>res.set()\<close> makes it all true.
\<close>

definition overflow_switch ::
  "OpType \<Rightarrow> ElemType \<Rightarrow> 64 word \<Rightarrow> TargetBitmap \<Rightarrow> TargetBitmap \<Rightarrow> ErrorCode + TargetBitmap" where
  "overflow_switch op T v res valid_res =
     (if op = GreaterThan \<or> op = GreaterEqual then
        (if lt_lb T v then Inr (inplace_and (replicate (length res) True) valid_res)
         else Inr res)
      else if op = LessThan \<or> op = LessEqual then
        (if gt_ub T v then Inr (inplace_and (replicate (length res) True) valid_res)
         else Inr res)
      else if op = Equal then Inr (replicate (length res) False)
      else if op = NotEqual then Inr (inplace_and (replicate (length res) True) valid_res)
      else Inl OpTypeInvalid)"

text \<open>
  \<open>PreCheckOverflow<T>(input)\<close>. \<open>GetValueFromProto<int64_t>\<close> asserts that the literal
  is an integer; the failed assertion is the error Unknown here. The result \<open>None\<close> is
  the null pointer: no overflow, the caller goes on.
\<close>

definition PreCheckOverflow ::
  "Segment \<Rightarrow> ElemType \<Rightarrow> int list option \<Rightarrow> PhyUnaryRangeFilterExpr
     \<Rightarrow> ColumnVector option result" where
  "PreCheckOverflow seg T input e =
     (if is_integral T then
        (case val e of
           Int64Val v \<Rightarrow>
             if out_of_range T v then
               (let (batch_sz, e1) =
                      (case input of
                         Some offsets \<Rightarrow> (int (length offsets), e)
                       | None \<Rightarrow>
                           (let n = (if overflow_check_pos e + batch_size (base e)
                                          \<ge> active_count (base e)
                                     then active_count (base e) - overflow_check_pos e
                                     else batch_size (base e))
                            in (n, e\<lparr>overflow_check_pos := overflow_check_pos e + n\<rparr>)));
                    (valid, b') =
                      (case input of
                         Some offsets \<Rightarrow>
                           (ProcessChunksForValidByOffsets seg (is_index_mode (base e1)) offsets
                              (base e1), base e1)
                       | None \<Rightarrow> ProcessChunksForValid seg (is_index_mode (base e1)) (base e1));
                    e2 = e1\<lparr>base := b', calls := calls e1 @ [Valid_Scan]\<rparr>
                in case overflow_switch (op_type e) T v (replicate (nat batch_sz) False) valid of
                     Inl err \<Rightarrow> (Inl err, e2)
                   | Inr res \<Rightarrow> (Inr (Some \<lparr>data = res, valid_data = valid\<rparr>), e2))
             else (Inr None, e)
         | _ \<Rightarrow> (Inl Unknown, e))
      else (Inr None, e))"

subsection \<open>Index scan and data scan of a scalar column\<close>

definition scan_op :: "OpType \<Rightarrow> bool" where
  "scan_op op \<longleftrightarrow> op \<in> {GreaterThan, GreaterEqual, LessThan, LessEqual, Equal, NotEqual,
                         PrefixMatch, PostfixMatch, InnerMatch, Match}"

definition init_arg :: "PhyUnaryRangeFilterExpr \<Rightarrow> PhyUnaryRangeFilterExpr" where
  "init_arg e = (if \<not> arg_inited e then e\<lparr>value_arg := val e, arg_inited := True\<rparr> else e)"

text \<open>
  \<open>ExecRangeVisitorImplForIndex<T>\<close>. The switch on the operator is in the lambda that
  \<open>ProcessIndexChunks\<close> runs on each chunk; its default branch throws OpTypeInvalid. A
  failed \<open>AssertInfo\<close> is the error Unknown.
\<close>

definition ExecRangeVisitorImplForIndex ::
  "Segment \<Rightarrow> ElemType \<Rightarrow> PhyUnaryRangeFilterExpr \<Rightarrow> ColumnVector option result" where
  "ExecRangeVisitorImplForIndex seg T e =
     (let e1 = init_arg e
      in case PreCheckOverflow seg T None e1 of
           (Inl err, e2) \<Rightarrow> (Inl err, e2)
         | (Inr (Some res), e2) \<Rightarrow> (Inr (Some res), e2)
         | (Inr None, e2) \<Rightarrow>
             (let real_batch_size = GetNextBatchSize seg (base e2)
              in if real_batch_size = 0 then (Inr None, e2)
                 else if \<not> scan_op (op_type e2) then (Inl OpTypeInvalid, e2)
                 else
                   (let e3 = e2\<lparr>calls := calls e2 @ [ScalarIndex_Scan]\<rparr>
                    in case ProcessIndexChunks seg T (op_type e2) (value_arg e2) (base e2) of
                         Inl err \<Rightarrow> (Inl err, e3)
                       | Inr (res, b') \<Rightarrow>
                           if int (length (data res)) = real_batch_size
                           then (Inr (Some res), e3\<lparr>base := b'\<rparr>)
                           else (Inl Unknown, e3\<lparr>base := b'\<rparr>))))"

text \<open>
  \<open>ExecRangeVisitorImplForData<T>\<close>. With \<open>has_offset_input_\<close> set and no offset vector
  the C++ dereferences a null pointer; \<open>Eval\<close> sets the flag from the vector, so this
  does not happen there, and the model returns the error Unknown.
\<close>

definition ExecRangeVisitorImplForData ::
  "Segment \<Rightarrow> ElemType \<Rightarrow> EvalCtx \<Rightarrow> PhyUnaryRangeFilterExpr \<Rightarrow> ColumnVector option result" where
  "ExecRangeVisitorImplForData seg T context e =
     (let input = offset_input context
      in case PreCheckOverflow seg T input e of
           (Inl err, e1) \<Rightarrow> (Inl err, e1)
         | (Inr (Some res), e1) \<Rightarrow> (Inr (Some res), e1)
         | (Inr None, e1) \<Rightarrow>
             (if has_offset_input (base e1) \<and> input = None then (Inl Unknown, e1)
              else
                (let real_batch_size =
                       (case input of
                          Some offsets \<Rightarrow>
                            if has_offset_input (base e1) then int (length offsets)
                            else GetNextBatchSize seg (base e1)
                        | None \<Rightarrow> GetNextBatchSize seg (base e1))
                 in if real_batch_size = 0 then (Inr None, e1)
                    else
                      (let e2 = init_arg e1
                       in if \<not> scan_op (op_type e2) then (Inl OpTypeInvalid, e2)
                          else
                            (let e3 = e2\<lparr>calls := calls e2 @ [Data_Scan]\<rparr>;
                                 r = (case input of
                                        Some offsets \<Rightarrow>
                                          if has_offset_input (base e1)
                                          then ProcessDataByOffsets seg T (op_type e2) (val e2)
                                                 (bitmap_input context) offsets (base e2)
                                          else ProcessDataChunks seg T (op_type e2) (val e2)
                                                 (bitmap_input context) (base e2)
                                      | None \<Rightarrow>
                                          ProcessDataChunks seg T (op_type e2) (val e2)
                                            (bitmap_input context) (base e2))
                             in case r of
                                  Inl err \<Rightarrow> (Inl err, e3)
                                | Inr (res, processed_size, b') \<Rightarrow>
                                    if processed_size = real_batch_size
                                    then (Inr (Some res), e3\<lparr>base := b'\<rparr>)
                                    else (Inl Unknown, e3\<lparr>base := b'\<rparr>))))))"

definition CanUseIndex ::
  "Segment \<Rightarrow> ElemType \<Rightarrow> PhyUnaryRangeFilterExpr \<Rightarrow> bool \<times> PhyUnaryRangeFilterExpr" where
  "CanUseIndex seg T e =
     (let u = is_index_mode (base e) \<and> SegmentExpr_CanUseIndex seg T (op_type e)
      in (u, e\<lparr>base := (base e)\<lparr>use_index := u\<rparr>\<rparr>))"

subsection \<open>Text match and n-gram match\<close>

text \<open>
  \<open>value_arg_.GetValue<std::string>()\<close> and \<open>GetValueFromProto<int64_t>\<close> fail when the
  value is of another type; the failure is the error Unknown.
\<close>

definition uint32_max :: int where
  "uint32_max = 4294967295"

text \<open>
  The slop of a phrase match: 0 unless the operator is PhraseMatch and an extra value is
  given; rejected when negative or above \<open>UINT32_MAX\<close>.
\<close>

definition phrase_slop :: "PhyUnaryRangeFilterExpr \<Rightarrow> ErrorCode + 64 word" where
  "phrase_slop e =
     (if op_type e = PhraseMatch then
        (case (if length (extra_values e) > 0
               then (case extra_values e ! 0 of Int64Val v \<Rightarrow> Inr v | _ \<Rightarrow> Inl Unknown)
               else Inr 0) of
           Inl err \<Rightarrow> Inl err
         | Inr slop \<Rightarrow>
             if sint slop < 0 \<or> sint slop > uint32_max then Inl InvalidParameter
             else Inr slop)
      else Inr 0)"

text \<open>
  The lambda \<open>func\<close> of \<open>ExecTextMatch\<close>: the query on the text index. The call of
  \<open>PhraseMatchQuery\<close> converts the 64-bit slop to its \<open>uint32_t\<close> parameter.
\<close>

definition text_query ::
  "Segment \<Rightarrow> OpType \<Rightarrow> 64 word \<Rightarrow> string \<Rightarrow> ErrorCode + TargetBitmap \<times> ExecCall" where
  "text_query seg op slop query =
     (if op = TextMatch then Inr (text_MatchQuery seg query, TextIndex_MatchQuery query)
      else if op = PhraseMatch
      then Inr (text_PhraseMatchQuery seg query (ucast slop),
                TextIndex_PhraseMatchQuery query (ucast slop))
      else Inl OpTypeInvalid)"

definition ExecTextMatch ::
  "Segment \<Rightarrow> PhyUnaryRangeFilterExpr \<Rightarrow> ColumnVector option result" where
  "ExecTextMatch seg e =
     (let e1 = init_arg e
      in case value_arg e1 of
           StringVal query \<Rightarrow>
             (case phrase_slop e1 of
                Inl err \<Rightarrow> (Inl err, e1)
              | Inr slop \<Rightarrow>
                  (let real_batch_size = GetNextBatchSize seg (base e1)
                   in if real_batch_size = 0 then (Inr None, e1)
                      else
                        (case (case cached_match_res e1 of
                                 Some cached \<Rightarrow> Inr (cached, e1)
                               | None \<Rightarrow>
                                   (case text_query seg (op_type e1) slop query of
                                      Inl err \<Rightarrow> Inl err
                                    | Inr (res, call) \<Rightarrow>
                                        (let valid_res = text_IsNotNull seg;
                                             short = (int (length res) < active_count (base e1));
                                             tail = replicate (nat (active_count (base e1)
                                                                    - int (length res))) False;
                                             cached = (if short then res @ tail else res)
                                         in Inr (cached,
                                                 e1\<lparr>cached_match_res := Some cached,
                                                    cached_index_chunk_valid_res :=
                                                      (if short then valid_res @ tail else valid_res),
                                                    calls := calls e1 @ [call, TextIndex_IsNotNull]\<rparr>)))) of
                           Inl err \<Rightarrow> (Inl err, e1)
                         | Inr (cached, e2) \<Rightarrow>
                             (let result = bitmap_slice cached
                                             (current_data_global_pos (base e2)) real_batch_size;
                                  valid_result = bitmap_slice (cached_index_chunk_valid_res e2)
                                             (current_data_global_pos (base e2)) real_batch_size
                              in (Inr (Some \<lparr>data = result, valid_data = valid_result\<rparr>),
                                  e2\<lparr>base := MoveCursor seg (base e2)\<rparr>)))))
         | _ \<Rightarrow> (Inl Unknown, e1))"

definition ngram_op :: "OpType \<Rightarrow> bool" where
  "ngram_op op \<longleftrightarrow> op = InnerMatch \<or> op = Match \<or> op = PrefixMatch \<or> op = PostfixMatch"

definition CanExecNgramMatch :: "Segment \<Rightarrow> PhyUnaryRangeFilterExpr \<Rightarrow> OpType \<Rightarrow> bool" where
  "CanExecNgramMatch seg e op \<longleftrightarrow>
     ngram_op op \<and> \<not> has_offset_input (base e) \<and> CanUseNgramIndex seg"

definition CanExecNgramMatchForJson ::
  "Segment \<Rightarrow> PhyUnaryRangeFilterExpr \<Rightarrow> DataType \<Rightarrow> bool" where
  "CanExecNgramMatchForJson seg e val_type \<longleftrightarrow>
     (val_type = STRING \<or> val_type = VARCHAR) \<and> ngram_op (op_type e)
       \<and> \<not> has_offset_input (base e) \<and> CanUseNgramIndexForJson seg (nested_path e)"

text \<open>
  The n-gram index that \<open>ExecNgramMatch\<close> pins: \<open>GetNgramIndexForJson\<close> of the nested
  path for a JSON column, \<open>GetNgramIndex\<close> otherwise; its \<open>ExecuteQuery\<close> and its
  \<open>IsNotNull\<close>.
\<close>

definition ngram_index_ExecuteQuery ::
  "Segment \<Rightarrow> PhyUnaryRangeFilterExpr \<Rightarrow> string \<Rightarrow> OpType \<Rightarrow> TargetBitmap option" where
  "ngram_index_ExecuteQuery seg e =
     (if column_data_type e = JSON then ngram_json_ExecuteQuery seg (nested_path e)
      else ngram_ExecuteQuery seg)"

definition ngram_index_IsNotNull :: "Segment \<Rightarrow> PhyUnaryRangeFilterExpr \<Rightarrow> TargetBitmap" where
  "ngram_index_IsNotNull seg e =
     (if column_data_type e = JSON then ngram_json_IsNotNull seg (nested_path e)
      else ngram_IsNotNull seg)"

text \<open>
  \<open>ExecNgramMatch\<close> returns \<open>std::optional<VectorPtr>\<close>: \<open>None\<close> is \<open>std::nullopt\<close>,
  the query is left to the normal path.
\<close>

definition ExecNgramMatch ::
  "Segment \<Rightarrow> PhyUnaryRangeFilterExpr \<Rightarrow> ColumnVector option result" where
  "ExecNgramMatch seg e =
     (let e1 = init_arg e
      in case value_arg e1 of
           StringVal literal \<Rightarrow>
             (let real_batch_size = GetNextBatchSize seg (base e1)
              in if real_batch_size = 0 then (Inr None, e1)
                 else
                   (case (case cached_ngram_match_res e1 of
                            Some cached \<Rightarrow> Some (cached, e1)
                          | None \<Rightarrow>
                              (case ngram_index_ExecuteQuery seg e1 literal (op_type e1) of
                                 None \<Rightarrow> None
                               | Some res \<Rightarrow>
                                   Some (res,
                                         e1\<lparr>cached_ngram_match_res := Some res,
                                            cached_index_chunk_valid_res :=
                                              ngram_index_IsNotNull seg e1,
                                            calls := calls e1
                                              @ [NgramIndex_ExecuteQuery literal (op_type e1),
                                                 NgramIndex_IsNotNull]\<rparr>))) of
                      None \<Rightarrow>
                        (Inr None,
                         e1\<lparr>calls := calls e1 @ [NgramIndex_ExecuteQuery literal (op_type e1)]\<rparr>)
                    | Some (cached, e2) \<Rightarrow>
                        (let result = bitmap_slice cached
                                        (current_data_global_pos (base e2)) real_batch_size;
                             valid_result = bitmap_slice (cached_index_chunk_valid_res e2)
                                        (current_data_global_pos (base e2)) real_batch_size
                         in (Inr (Some \<lparr>data = result, valid_data = valid_result\<rparr>),
                             e2\<lparr>base := MoveCursor seg (base e2)\<rparr>))))
         | _ \<Rightarrow> (Inl Unknown, e1))"

subsection \<open>Dispatch on a scalar column\<close>

definition normal_path ::
  "Segment \<Rightarrow> ElemType \<Rightarrow> EvalCtx \<Rightarrow> PhyUnaryRangeFilterExpr \<Rightarrow> ColumnVector option result" where
  "normal_path seg T context e =
     (let (can_use_index, e1) = CanUseIndex seg T e
      in if can_use_index \<and> \<not> has_offset_input (base e1)
         then ExecRangeVisitorImplForIndex seg T e1
         else ExecRangeVisitorImplForData seg T context e1)"

definition ExecRangeVisitorImpl ::
  "Segment \<Rightarrow> ElemType \<Rightarrow> EvalCtx \<Rightarrow> PhyUnaryRangeFilterExpr \<Rightarrow> ColumnVector option result" where
  "ExecRangeVisitorImpl seg T context e =
     (if op_type e = TextMatch \<or> op_type e = PhraseMatch then
        (if has_offset_input (base e) then (Inl OpTypeInvalid, e)
         else ExecTextMatch seg e)
      else if CanExecNgramMatch seg e (op_type e) then
        (case ExecNgramMatch seg e of
           (Inl err, e1) \<Rightarrow> (Inl err, e1)
         | (Inr (Some res), e1) \<Rightarrow> (Inr (Some res), e1)
         | (Inr None, e1) \<Rightarrow> normal_path seg T context e1)
      else normal_path seg T context e)"

subsection \<open>JSON data scan\<close>

text \<open>
  The comparison \<open>cmp\<close> of the macros is a function of the value read, and it can throw;
  for an int64 literal a second function compares the value read as a double. The macro
  evaluates \<open>cmp\<close> only where the lookup has succeeded.
\<close>

definition UnaryRangeJSONCompare ::
  "bool \<Rightarrow> 'x option \<Rightarrow> real option \<Rightarrow> ('x \<Rightarrow> ErrorCode + bool) \<Rightarrow> (real \<Rightarrow> ErrorCode + bool)
     \<Rightarrow> ErrorCode + bool" where
  "UnaryRangeJSONCompare get_type_is_int64 x x_double cmp cmp_double =
     (case x of
        None \<Rightarrow>
          (if get_type_is_int64
           then (case x_double of None \<Rightarrow> Inr False | Some d \<Rightarrow> cmp_double d)
           else Inr False)
      | Some v \<Rightarrow> cmp v)"

definition UnaryRangeJSONCompareNotEqual ::
  "bool \<Rightarrow> 'x option \<Rightarrow> real option \<Rightarrow> ('x \<Rightarrow> ErrorCode + bool) \<Rightarrow> (real \<Rightarrow> ErrorCode + bool)
     \<Rightarrow> ErrorCode + bool" where
  "UnaryRangeJSONCompareNotEqual get_type_is_int64 x x_double cmp cmp_double =
     (case x of
        None \<Rightarrow>
          (if get_type_is_int64
           then (case x_double of None \<Rightarrow> Inr True | Some d \<Rightarrow> cmp_double d)
           else Inr True)
      | Some v \<Rightarrow> cmp v)"

definition relational_op :: "OpType \<Rightarrow> bool" where
  "relational_op op \<longleftrightarrow>
     op \<in> {GreaterThan, GreaterEqual, LessThan, LessEqual, Equal, NotEqual}"

definition compare_values :: "OpType \<Rightarrow> 'a::linorder \<Rightarrow> 'a \<Rightarrow> bool" where
  "compare_values op x v =
     (case op of
        GreaterThan \<Rightarrow> x > v
      | GreaterEqual \<Rightarrow> x \<ge> v
      | LessThan \<Rightarrow> x < v
      | LessEqual \<Rightarrow> x \<le> v
      | Equal \<Rightarrow> x = v
      | NotEqual \<Rightarrow> x \<noteq> v
      | _ \<Rightarrow> False)"

text \<open>
  Modelled from the spec: \<open>milvus::query::Match\<close> (query/Utils.h is not among the
  sources). Section 4.6.3 names the string operators prefix, postfix and contains; on a
  value that is not a string the operation is not supported (sections 4.7 and 7:
  Unsupported). The regular expression of \<open>Match\<close> is the library's, a parameter.
\<close>

definition string_match :: "Segment \<Rightarrow> OpType \<Rightarrow> string \<Rightarrow> string \<Rightarrow> bool" where
  "string_match seg op x v =
     (case op of
        PrefixMatch \<Rightarrow> prefix v x
      | PostfixMatch \<Rightarrow> suffix v x
      | InnerMatch \<Rightarrow> sublist v x
      | Match \<Rightarrow> regex_match seg v x
      | _ \<Rightarrow> False)"

definition non_string_cmp :: "OpType \<Rightarrow> bool \<Rightarrow> ErrorCode + bool" where
  "non_string_cmp op r = (if relational_op op then Inr r else Inl Unsupported)"

text \<open>
  Modelled from the spec: \<open>PatternMatchTranslator\<close> (common/RegexQuery.h is not among the
  sources). Section 4.6.5: the literal of \<open>Match\<close> is a SQL-LIKE pattern, a string; the
  open questions of the spec: an empty pattern is rejected with InvalidParameter; section
  7: a literal of another type is OpTypeInvalid.
\<close>

definition PatternMatchTranslator :: "GenericValue \<Rightarrow> ErrorCode + string" where
  "PatternMatchTranslator v =
     (case v of
        StringVal s \<Rightarrow> if s = [] then Inl InvalidParameter else Inr s
      | _ \<Rightarrow> Inl OpTypeInvalid)"

text \<open>
  One row of the loop of \<open>execute_sub_batch\<close> in \<open>ExecRangeVisitorImplJson\<close>, after the
  checks of validity and of the input bitmap: the bit written to \<open>res[i]\<close>, or the
  exception thrown at this row.
\<close>

definition json_compare ::
  "OpType \<Rightarrow> bool \<Rightarrow> 'x option \<Rightarrow> real option \<Rightarrow> ('x \<Rightarrow> ErrorCode + bool)
     \<Rightarrow> (real \<Rightarrow> ErrorCode + bool) \<Rightarrow> ErrorCode + bool" where
  "json_compare op get_type_is_int64 x x_double cmp cmp_double =
     (if op = NotEqual
      then UnaryRangeJSONCompareNotEqual get_type_is_int64 x x_double cmp cmp_double
      else UnaryRangeJSONCompare get_type_is_int64 x x_double cmp cmp_double)"

definition json_row ::
  "Segment \<Rightarrow> OpType \<Rightarrow> string list \<Rightarrow> GenericValue \<Rightarrow> Json \<Rightarrow> ErrorCode + bool" where
  "json_row seg op pointer v doc =
     (case v of
        ArrayVal lit \<Rightarrow>
          (if op = Equal then
             (case get_array doc pointer of
                None \<Rightarrow> Inr False
              | Some array \<Rightarrow> Inr (CompareTwoJsonArray array lit))
           else if op = NotEqual then
             (case get_array doc pointer of
                None \<Rightarrow> Inr False
              | Some array \<Rightarrow> Inr (\<not> CompareTwoJsonArray array lit))
           else Inr False)
      | BoolVal b \<Rightarrow>
          json_compare op False (at_bool doc pointer) None
            (\<lambda>x. non_string_cmp op (compare_values op x b)) (\<lambda>d. Inr False)
      | Int64Val i \<Rightarrow>
          json_compare op True (at_int64 doc pointer) (at_double doc pointer)
            (\<lambda>x. non_string_cmp op (compare_values op x (sint i)))
            (\<lambda>d. non_string_cmp op (compare_values op d (double_of_int (sint i))))
      | FloatVal f \<Rightarrow>
          json_compare op False (at_double doc pointer) None
            (\<lambda>x. non_string_cmp op (compare_values op x f)) (\<lambda>d. Inr False)
      | StringVal s \<Rightarrow>
          json_compare op False (at_string doc pointer) None
            (\<lambda>x. Inr (if relational_op op then compare_values op x s
                       else string_match seg op x s))
            (\<lambda>d. Inr False)
      | ValNotSet \<Rightarrow> Inr False)"

text \<open>
  The rows of a batch in their order: the first exception ends the loop.
\<close>

fun collect_rows :: "(ErrorCode + bool) list \<Rightarrow> ErrorCode + bool list" where
  "collect_rows [] = Inr []"
| "collect_rows (Inl err # rows) = Inl err"
| "collect_rows (Inr b # rows) =
     (case collect_rows rows of Inl err \<Rightarrow> Inl err | Inr bits \<Rightarrow> Inr (b # bits))"

text \<open>
  \<open>execute_sub_batch\<close>: the switch on the operator, whose default branch throws
  OpTypeInvalid and whose \<open>Match\<close> branch translates the pattern before its loop; then
  the loop over the rows. A row that is not valid is false in both bitmaps; a row whose
  bit of the input bitmap is 0 is skipped and keeps the initial bits (result false, valid
  true); neither reads the document.
\<close>

definition json_sub_batch ::
  "Segment \<Rightarrow> OpType \<Rightarrow> string list \<Rightarrow> GenericValue \<Rightarrow> Json list \<Rightarrow> bool list option
     \<Rightarrow> TargetBitmap \<Rightarrow> ErrorCode + ColumnVector" where
  "json_sub_batch seg op pointer v rows valid_rows bitmap_in =
     (let row_valid = (\<lambda>i. case valid_rows of None \<Rightarrow> True | Some vd \<Rightarrow> vd ! i);
          skipped = (\<lambda>i. bitmap_in \<noteq> [] \<and> \<not> bitmap_in ! i)
      in if \<not> scan_op op then Inl OpTypeInvalid
         else
           (case (if op = Match then PatternMatchTranslator v else Inr []) of
              Inl err \<Rightarrow> Inl err
            | Inr regex_pattern \<Rightarrow>
                (case collect_rows
                        (map (\<lambda>i. if \<not> row_valid i \<or> skipped i then Inr False
                                  else json_row seg op pointer v (rows ! i))
                           [0..<length rows]) of
                   Inl err \<Rightarrow> Inl err
                 | Inr bits \<Rightarrow>
                     Inr \<lparr>data = bits, valid_data = map row_valid [0..<length rows]\<rparr>)))"

definition ExecRangeVisitorImplJsonForIndex ::
  "Segment \<Rightarrow> PhyUnaryRangeFilterExpr \<Rightarrow> ColumnVector option result" where
  "ExecRangeVisitorImplJsonForIndex seg e =
     (let real_batch_size = GetNextBatchSize seg (base e)
      in if real_batch_size = 0 then (Inr None, e)
         else
           (let e1 = e\<lparr>calls := calls e @ [JsonKeyIndex_Scan]\<rparr>
            in case JsonKeyIndexFilter seg (op_type e) (val e) (nested_path e) (base e) of
                 Inl err \<Rightarrow> (Inl err, e1)
               | Inr (res, b') \<Rightarrow> (Inr res, e1\<lparr>base := MoveCursor seg b'\<rparr>)))"

text \<open>
  \<open>ExecRangeVisitorImplJson\<close>. The base class calls \<open>execute_sub_batch\<close> on the rows of
  the batch; with no row it is not called, and the assertion on the number of rows
  processed fails. An exception of \<open>execute_sub_batch\<close> leaves the loop of the base
  class.
\<close>

definition ExecRangeVisitorImplJson ::
  "Segment \<Rightarrow> EvalCtx \<Rightarrow> PhyUnaryRangeFilterExpr \<Rightarrow> ColumnVector option result" where
  "ExecRangeVisitorImplJson seg context e =
     (let input = offset_input context
      in if CanUseJsonKeyIndex seg \<and> \<not> has_offset_input (base e)
         then ExecRangeVisitorImplJsonForIndex seg e
         else if has_offset_input (base e) \<and> input = None then (Inl Unknown, e)
         else
           (let by_offsets = (case input of Some offsets \<Rightarrow> has_offset_input (base e) | None \<Rightarrow> False);
                offsets = (case input of Some offsets \<Rightarrow> offsets | None \<Rightarrow> []);
                real_batch_size = (if by_offsets then int (length offsets)
                                   else GetNextBatchSize seg (base e))
            in if real_batch_size = 0 then (Inr None, e)
               else
                 (let e1 = init_arg e;
                      ((rows, valid_rows), b') =
                        (if by_offsets then (JsonDataByOffsets seg offsets (base e1), base e1)
                         else JsonDataChunks seg (base e1));
                      e2 = e1\<lparr>calls := calls e1 @ [Data_Scan]\<rparr>
                  in case (if rows = [] then Inr \<lparr>data = [], valid_data = []\<rparr>
                           else json_sub_batch seg (op_type e1) (nested_path e1) (value_arg e1)
                                  rows valid_rows (bitmap_input context)) of
                       Inl err \<Rightarrow> (Inl err, e2)
                     | Inr res \<Rightarrow>
                         if int (length rows) = real_batch_size
                         then (Inr (Some res), e2\<lparr>base := b'\<rparr>)
                         else (Inl Unknown, e2\<lparr>base := b'\<rparr>))))"

subsection \<open>ARRAY columns\<close>

text \<open>
  \<open>std::stoi\<close> in base 10: white space is skipped, a sign is optional, the digits that
  follow are read and what comes after them is ignored. With no digit it throws
  \<open>std::invalid_argument\<close>, with a value outside \<open>int\<close> it throws \<open>std::out_of_range\<close>;
  neither is an error of the executor, and both are the error Unknown here.
\<close>

definition isspace :: "char \<Rightarrow> bool" where
  "isspace c \<longleftrightarrow> c \<in> {CHR '' '', CHR 0x09, CHR 0x0A, CHR 0x0B, CHR 0x0C, CHR 0x0D}"

definition isdigit :: "char \<Rightarrow> bool" where
  "isdigit c \<longleftrightarrow> c \<in> set ''0123456789''"

definition digit_value :: "char \<Rightarrow> int" where
  "digit_value c = int (of_char c) - 48"

definition stoi :: "string \<Rightarrow> ErrorCode + int" where
  "stoi str =
     (let s1 = dropWhile isspace str;
          negative = (s1 \<noteq> [] \<and> hd s1 = CHR ''-'');
          s2 = (if s1 \<noteq> [] \<and> (hd s1 = CHR ''-'' \<or> hd s1 = CHR ''+'') then tl s1 else s1);
          digits = takeWhile isdigit s2
      in if digits = [] then Inl Unknown
         else
           (let n = foldl (\<lambda>a c. 10 * a + digit_value c) 0 digits;
                v = (if negative then - n else n)
            in if v < - (2 ^ 31) \<or> v > 2 ^ 31 - 1 then Inl Unknown else Inr v))"

text \<open>
  \<open>ExecRangeVisitorImplArray\<close>: the element index is read from the first key of the
  nested path before the scan.
\<close>

definition ExecRangeVisitorImplArray ::
  "Segment \<Rightarrow> EvalCtx \<Rightarrow> PhyUnaryRangeFilterExpr \<Rightarrow> ColumnVector option result" where
  "ExecRangeVisitorImplArray seg context e =
     (let input = offset_input context
      in if has_offset_input (base e) \<and> input = None then (Inl Unknown, e)
         else
           (let real_batch_size =
                  (case input of
                     Some offsets \<Rightarrow>
                       if has_offset_input (base e) then int (length offsets)
                       else GetNextBatchSize seg (base e)
                   | None \<Rightarrow> GetNextBatchSize seg (base e))
            in if real_batch_size = 0 then (Inr None, e)
               else
                 (let e1 = init_arg e
                  in case (if nested_path e1 = [] then Inr (- 1)
                           else stoi (nested_path e1 ! 0)) of
                       Inl err \<Rightarrow> (Inl err, e1)
                     | Inr index \<Rightarrow>
                         (let e2 = e1\<lparr>calls := calls e1 @ [Data_Scan]\<rparr>
                          in case ArrayDataScan seg (op_type e1) (value_arg e1) index
                                    (bitmap_input context)
                                    (if has_offset_input (base e) then input else None)
                                    (base e1) of
                               Inl err \<Rightarrow> (Inl err, e2)
                             | Inr (res, processed_size, b') \<Rightarrow>
                                 if processed_size = real_batch_size
                                 then (Inr (Some res), e2\<lparr>base := b'\<rparr>)
                                 else (Inl Unknown, e2\<lparr>base := b'\<rparr>)))))"

definition SetNotUseIndex :: "PhyUnaryRangeFilterExpr \<Rightarrow> PhyUnaryRangeFilterExpr" where
  "SetNotUseIndex e = e\<lparr>base := (base e)\<lparr>use_index := False\<rparr>\<rparr>"

text \<open>\<open>CanUseIndexForArray<milvus::Array>\<close>: no chunk index of type HYBRID or BITMAP.\<close>

definition CanUseIndexForArray ::
  "Segment \<Rightarrow> PhyUnaryRangeFilterExpr \<Rightarrow> (ErrorCode + bool) \<times> PhyUnaryRangeFilterExpr" where
  "CanUseIndexForArray seg e =
     (if \<not> is_index_mode (base e) then (Inr False, SetNotUseIndex e)
      else
        (case (case column_element_type e of
                 BOOL \<Rightarrow> Inr (index_type_allows_array seg T_bool)
               | INT8 \<Rightarrow> Inr (index_type_allows_array seg T_int8)
               | INT16 \<Rightarrow> Inr (index_type_allows_array seg T_int16)
               | INT32 \<Rightarrow> Inr (index_type_allows_array seg T_int32)
               | INT64 \<Rightarrow> Inr (index_type_allows_array seg T_int64)
               | FLOAT \<Rightarrow> Inr False
               | DOUBLE \<Rightarrow> Inr False
               | VARCHAR \<Rightarrow> Inr (index_type_allows_array seg T_string_view)
               | STRING \<Rightarrow> Inr (index_type_allows_array seg T_string_view)
               | _ \<Rightarrow> Inl DataTypeInvalid) of
           Inl err \<Rightarrow> (Inl err, e)
         | Inr res \<Rightarrow> (Inr res, e\<lparr>base := (base e)\<lparr>use_index := res\<rparr>\<rparr>)))"

definition ExecArrayEqualForIndex ::
  "Segment \<Rightarrow> ElemType \<Rightarrow> EvalCtx \<Rightarrow> bool \<Rightarrow> PhyUnaryRangeFilterExpr
     \<Rightarrow> ColumnVector option result" where
  "ExecArrayEqualForIndex seg T context reverse e =
     (let real_batch_size = GetNextBatchSize seg (base e)
      in if real_batch_size = 0 then (Inr None, e)
         else
           (case val e of
              ArrayVal elements \<Rightarrow>
                if length elements = 0 then ExecRangeVisitorImplArray seg context e
                else
                  (let e1 = e\<lparr>calls := calls e @ [ArrayIndex_Scan]\<rparr>
                   in case ArrayIndexScan seg T reverse (val e) (base e) of
                        Inl err \<Rightarrow> (Inl err, e1)
                      | Inr (res, b') \<Rightarrow>
                          if int (length (data res)) = real_batch_size
                          then (Inr (Some res), e1\<lparr>base := b'\<rparr>)
                          else (Inl Unknown, e1\<lparr>base := b'\<rparr>))
            | _ \<Rightarrow> (Inl Unknown, e)))"

definition ExecRangeVisitorImplArrayForIndex ::
  "Segment \<Rightarrow> EvalCtx \<Rightarrow> PhyUnaryRangeFilterExpr \<Rightarrow> ColumnVector option result" where
  "ExecRangeVisitorImplArrayForIndex seg context e =
     (if op_type e = Equal \<or> op_type e = NotEqual then
        (let reverse = (op_type e = NotEqual)
         in case column_element_type e of
              BOOL \<Rightarrow> ExecArrayEqualForIndex seg T_bool context reverse e
            | INT8 \<Rightarrow> ExecArrayEqualForIndex seg T_int8 context reverse e
            | INT16 \<Rightarrow> ExecArrayEqualForIndex seg T_int16 context reverse e
            | INT32 \<Rightarrow> ExecArrayEqualForIndex seg T_int32 context reverse e
            | INT64 \<Rightarrow> ExecArrayEqualForIndex seg T_int64 context reverse e
            | FLOAT \<Rightarrow> ExecRangeVisitorImplArray seg context e
            | DOUBLE \<Rightarrow> ExecRangeVisitorImplArray seg context e
            | VARCHAR \<Rightarrow>
                if is_growing seg then ExecArrayEqualForIndex seg T_string context reverse e
                else ExecArrayEqualForIndex seg T_string_view context reverse e
            | _ \<Rightarrow> (Inl DataTypeInvalid, e))
      else ExecRangeVisitorImplArray seg context e)"

subsection \<open>Eval\<close>

text \<open>
  Modelled from the spec: \<open>FromValCase\<close> (not among the sources), the data type of a
  literal by its case, after the data types of section 6.
\<close>

fun FromValCase :: "ValCase \<Rightarrow> DataType" where
  "FromValCase kBoolVal = BOOL"
| "FromValCase kInt64Val = INT64"
| "FromValCase kFloatVal = DOUBLE"
| "FromValCase kStringVal = VARCHAR"
| "FromValCase kArrayVal = ARRAY"
| "FromValCase VAL_NOT_SET = NONE"

definition CanUseIndexForJson ::
  "Segment \<Rightarrow> DataType \<Rightarrow> PhyUnaryRangeFilterExpr \<Rightarrow> bool \<times> PhyUnaryRangeFilterExpr" where
  "CanUseIndexForJson seg val_type e =
     (let has_index = HasIndex seg val_type;
          u = (if val_type = STRING \<or> val_type = VARCHAR
               then has_index \<and> op_type e \<noteq> Match \<and> op_type e \<noteq> PostfixMatch
                      \<and> op_type e \<noteq> InnerMatch
               else has_index)
      in (u, e\<lparr>base := (base e)\<lparr>use_index := u\<rparr>\<rparr>))"

definition SetHasOffsetInput :: "bool \<Rightarrow> PhyUnaryRangeFilterExpr \<Rightarrow> PhyUnaryRangeFilterExpr" where
  "SetHasOffsetInput b e = e\<lparr>base := (base e)\<lparr>has_offset_input := b\<rparr>\<rparr>"

definition Eval_json_normal ::
  "Segment \<Rightarrow> EvalCtx \<Rightarrow> PhyUnaryRangeFilterExpr \<Rightarrow> ColumnVector option result" where
  "Eval_json_normal seg context e =
     (let val_type = val_case (val e);
          (can_use_index, e1) = CanUseIndexForJson seg (FromValCase val_type) e
      in if can_use_index \<and> \<not> has_offset_input (base e1) then
           (case val_type of
              kBoolVal \<Rightarrow> ExecRangeVisitorImplForIndex seg T_bool e1
            | kInt64Val \<Rightarrow>
                ExecRangeVisitorImplForIndex seg T_double
                  (case val e1 of
                     Int64Val i \<Rightarrow>
                       e1\<lparr>value_arg := FloatVal (double_of_int (sint i)), arg_inited := True\<rparr>
                   | _ \<Rightarrow> e1)
            | kFloatVal \<Rightarrow> ExecRangeVisitorImplForIndex seg T_double e1
            | kStringVal \<Rightarrow> ExecRangeVisitorImplForIndex seg T_string e1
            | _ \<Rightarrow> (Inl DataTypeInvalid, e1))
         else
           (case val_type of
              VAL_NOT_SET \<Rightarrow> (Inl DataTypeInvalid, e1)
            | _ \<Rightarrow> ExecRangeVisitorImplJson seg context e1))"

definition Eval ::
  "Segment \<Rightarrow> EvalCtx \<Rightarrow> PhyUnaryRangeFilterExpr \<Rightarrow> ColumnVector option result" where
  "Eval seg context e0 =
     (let e = SetHasOffsetInput (offset_input context \<noteq> None) e0
      in case column_data_type e of
           BOOL \<Rightarrow> ExecRangeVisitorImpl seg T_bool context e
         | INT8 \<Rightarrow> ExecRangeVisitorImpl seg T_int8 context e
         | INT16 \<Rightarrow> ExecRangeVisitorImpl seg T_int16 context e
         | INT32 \<Rightarrow> ExecRangeVisitorImpl seg T_int32 context e
         | INT64 \<Rightarrow> ExecRangeVisitorImpl seg T_int64 context e
         | FLOAT \<Rightarrow> ExecRangeVisitorImpl seg T_float context e
         | DOUBLE \<Rightarrow> ExecRangeVisitorImpl seg T_double context e
         | VARCHAR \<Rightarrow>
             if is_growing seg \<and> \<not> growing_enable_mmap seg
             then ExecRangeVisitorImpl seg T_string context e
             else ExecRangeVisitorImpl seg T_string_view context e
         | JSON \<Rightarrow>
             (if CanExecNgramMatchForJson seg e (FromValCase (val_case (val e)))
                   \<and> \<not> has_offset_input (base e) then
                (case ExecNgramMatch seg e of
                   (Inl err, e1) \<Rightarrow> (Inl err, e1)
                 | (Inr (Some res), e1) \<Rightarrow> (Inr (Some res), e1)
                 | (Inr None, e1) \<Rightarrow> Eval_json_normal seg context e1)
              else Eval_json_normal seg context e)
         | ARRAY \<Rightarrow>
             (case val_case (val e) of
                kArrayVal \<Rightarrow>
                  (if has_offset_input (base e) then ExecRangeVisitorImplArray seg context e
                   else
                     (case CanUseIndexForArray seg e of
                        (Inl err, e1) \<Rightarrow> (Inl err, e1)
                      | (Inr True, e1) \<Rightarrow> ExecRangeVisitorImplArrayForIndex seg context e1
                      | (Inr False, e1) \<Rightarrow> ExecRangeVisitorImplArray seg context e1))
              | VAL_NOT_SET \<Rightarrow> (Inl DataTypeInvalid, e)
              | _ \<Rightarrow> ExecRangeVisitorImplArray seg context (SetNotUseIndex e))
         | _ \<Rightarrow> (Inl DataTypeInvalid, e))"

subsection \<open>States that pose the same query\<close>

text \<open>
  The literal that an executor works with: \<open>value_arg_\<close> once it is initialised, the
  literal of the plan before. Two states of an expression pose the same query when they
  differ at most in the record of the calls made and in whether the literal has been
  copied to \<open>value_arg_\<close> already.
\<close>

definition effective_arg :: "PhyUnaryRangeFilterExpr \<Rightarrow> GenericValue" where
  "effective_arg e = (if arg_inited e then value_arg e else val e)"

definition same_query :: "PhyUnaryRangeFilterExpr \<Rightarrow> PhyUnaryRangeFilterExpr \<Rightarrow> bool" where
  "same_query e e' \<longleftrightarrow>
     base e' = base e \<and> op_type e' = op_type e
     \<and> column_data_type e' = column_data_type e \<and> column_element_type e' = column_element_type e
     \<and> nested_path e' = nested_path e \<and> val e' = val e \<and> extra_values e' = extra_values e
     \<and> overflow_check_pos e' = overflow_check_pos e
     \<and> cached_match_res e' = cached_match_res e
     \<and> cached_ngram_match_res e' = cached_ngram_match_res e
     \<and> cached_index_chunk_valid_res e' = cached_index_chunk_valid_res e
     \<and> effective_arg e' = effective_arg e"

subsection \<open>What an evaluation may call\<close>

text \<open>
  The template argument that \<open>Eval\<close> picks for a scalar column, and the evaluations whose
  new calls are scans of the data only (the data scan, and the scan of the valid bits of
  the overflow pre-check).
\<close>

definition scalar_elem_type :: "Segment \<Rightarrow> DataType \<Rightarrow> ElemType option" where
  "scalar_elem_type seg t =
     (case t of
        BOOL \<Rightarrow> Some T_bool
      | INT8 \<Rightarrow> Some T_int8
      | INT16 \<Rightarrow> Some T_int16
      | INT32 \<Rightarrow> Some T_int32
      | INT64 \<Rightarrow> Some T_int64
      | FLOAT \<Rightarrow> Some T_float
      | DOUBLE \<Rightarrow> Some T_double
      | VARCHAR \<Rightarrow> Some (if is_growing seg \<and> \<not> growing_enable_mmap seg then T_string
                         else T_string_view)
      | _ \<Rightarrow> None)"


section \<open>Concrete inputs\<close>

definition example_translator :: "nat Translator" where
  "example_translator =
     \<lparr>num_cells = 3,
      estimated_byte_size_of_cell = (\<lambda>cid. \<lparr>memory_bytes = 10 * int cid + 10, file_bytes = 1\<rparr>),
      translator_cell_id_of = (\<lambda>uid. uid mod 3),
      get_cells = (\<lambda>cids. Inr (map (\<lambda>cid. (cid, cid + 100)) cids)),
      cache_warmup_policy = CacheWarmupPolicy_Sync,
      cell_id_mapping_mode = IDENTICAL\<rparr>"

definition example_dlist :: DList where
  "example_dlist =
     \<lparr>used = usage_zero, limit = \<lparr>memory_bytes = 1000, file_bytes = 1000\<rparr>\<rparr>"

definition example_slot :: "nat CacheSlot" where
  "example_slot = CacheSlot_new example_translator (Some example_dlist)"


text \<open>A budget that is too small for any cell, and a Translator whose bulk load throws.\<close>

definition tight_dlist :: DList where
  "tight_dlist = \<lparr>used = usage_zero, limit = \<lparr>memory_bytes = 5, file_bytes = 5\<rparr>\<rparr>"

definition failing_translator :: "nat Translator" where
  "failing_translator = example_translator\<lparr>get_cells := (\<lambda>cids. Inl FileReadFailed)\<rparr>"

text \<open>A slot whose cells 0 and 1 have been pinned by a requester and wait for their load.\<close>

definition loading_slot :: "DList \<Rightarrow> nat CacheSlot" where
  "loading_slot d =
     fst (pin_each (CacheSlot_new example_translator (Some d)) [0, 1] [] usage_zero)"






text \<open>
  A growing segment of 10 active rows whose text index was built at 7 rows, scanned in
  batches of 4; its n-gram indexes decline every query.
\<close>

definition example_base :: SegmentExpr where
  "example_base =
     \<lparr>active_count = 10, batch_size = 4, current_data_global_pos = 0,
      current_data_chunk = 0, current_data_chunk_pos = 0,
      current_index_chunk = 0, current_index_chunk_pos = 0,
      is_index_mode = False, use_index = False, has_offset_input = False\<rparr>"

definition example_next_batch :: "SegmentExpr \<Rightarrow> int" where
  "example_next_batch b =
     (if current_data_global_pos b + batch_size b \<ge> active_count b
      then active_count b - current_data_global_pos b else batch_size b)"

definition example_segment :: Segment where
  "example_segment =
     \<lparr>is_growing = True,
      growing_enable_mmap = False,
      GetNextBatchSize = example_next_batch,
      MoveCursor = (\<lambda>b. b\<lparr>current_data_global_pos :=
                               current_data_global_pos b + example_next_batch b\<rparr>),
      SegmentExpr_CanUseIndex = (\<lambda>T op. True),
      CanUseNgramIndex = True,
      CanUseNgramIndexForJson = (\<lambda>path. True),
      HasIndex = (\<lambda>t. False),
      CanUseJsonKeyIndex = False,
      index_type_allows_array = (\<lambda>T. True),
      text_MatchQuery = (\<lambda>q. [True, False, True, False, False, True, True]),
      text_PhraseMatchQuery = (\<lambda>q slop. [True, False, False, False, False, True, False]),
      text_IsNotNull = [True, True, True, False, True, True, True],
      ngram_ExecuteQuery = (\<lambda>literal op. None),
      ngram_IsNotNull = replicate 10 True,
      ngram_json_ExecuteQuery = (\<lambda>path literal op. None),
      ngram_json_IsNotNull = (\<lambda>path. replicate 10 True),
      regex_match = (\<lambda>pattern s. pattern = s),
      ProcessIndexChunks =
        (\<lambda>T op v b. Inr (\<lparr>data = [True, True, False, False], valid_data = replicate 4 True\<rparr>, b)),
      ProcessDataChunks =
        (\<lambda>T op v bm b. Inr (\<lparr>data = [True, False, True, False], valid_data = replicate 4 True\<rparr>,
                             4, b)),
      ProcessDataByOffsets =
        (\<lambda>T op v bm offsets b.
           Inr (\<lparr>data = map (\<lambda>i. i mod 2 = 0) offsets, valid_data = map (\<lambda>i. True) offsets\<rparr>,
                int (length offsets), b)),
      ProcessChunksForValid = (\<lambda>index_mode b. ([True, True, False, True], b)),
      ProcessChunksForValidByOffsets = (\<lambda>index_mode offsets b. map (\<lambda>i. i \<noteq> 2) offsets),
      JsonDataChunks =
        (\<lambda>b. (([JObject [(''k'', JInt 1)], JObject [(''k'', JString ''1'')],
                  JObject [(''k'', JDouble 1)], JObject []], None), b)),
      JsonDataByOffsets = (\<lambda>offsets b. (map (\<lambda>i. JObject []) offsets, None)),
      JsonKeyIndexFilter = (\<lambda>op v path b. Inr (None, b)),
      ArrayDataScan =
        (\<lambda>op v index bm input b.
           (case input of
              Some offsets \<Rightarrow>
                Inr (\<lparr>data = map (\<lambda>i. False) offsets, valid_data = map (\<lambda>i. True) offsets\<rparr>,
                     int (length offsets), b)
            | None \<Rightarrow> Inr (\<lparr>data = replicate 4 False, valid_data = replicate 4 True\<rparr>, 4, b))),
      ArrayIndexScan =
        (\<lambda>T reverse v b. Inr (\<lparr>data = replicate 4 False, valid_data = replicate 4 True\<rparr>, b))\<rparr>"

definition example_expr :: PhyUnaryRangeFilterExpr where
  "example_expr =
     \<lparr>base = example_base, op_type = GreaterThan, column_data_type = INT32,
      column_element_type = NONE, nested_path = [], val = Int64Val 2, extra_values = [],
      arg_inited = False, value_arg = ValNotSet, overflow_check_pos = 0,
      cached_match_res = None, cached_ngram_match_res = None,
      cached_index_chunk_valid_res = [], calls = []\<rparr>"

definition text_expr :: PhyUnaryRangeFilterExpr where
  "text_expr =
     example_expr\<lparr>op_type := TextMatch, column_data_type := VARCHAR, val := StringVal ''hello''\<rparr>"

text \<open>The same expression at its third batch, with the bitmaps cached by the first.\<close>

definition text_expr_cached :: PhyUnaryRangeFilterExpr where
  "text_expr_cached =
     text_expr\<lparr>base := example_base\<lparr>current_data_global_pos := 8\<rparr>,
               arg_inited := True, value_arg := StringVal ''hello'',
               cached_match_res :=
                 Some [True, False, True, False, False, True, True, False, False, False],
               cached_index_chunk_valid_res :=
                 [True, True, True, False, True, True, True, False, False, False]\<rparr>"

definition phrase_expr :: "64 word \<Rightarrow> PhyUnaryRangeFilterExpr" where
  "phrase_expr slop =
     example_expr\<lparr>op_type := PhraseMatch, column_data_type := VARCHAR,
                  val := StringVal ''hello world'', extra_values := [Int64Val slop]\<rparr>"


text \<open>An INT8 column and a literal that does not fit; an evaluation on three row offsets.\<close>

definition overflow_expr :: "OpType \<Rightarrow> 64 word \<Rightarrow> PhyUnaryRangeFilterExpr" where
  "overflow_expr op literal =
     example_expr\<lparr>op_type := op, column_data_type := INT8, val := Int64Val literal\<rparr>"

definition offsets_ctx :: EvalCtx where
  "offsets_ctx = \<lparr>offset_input = Some [0, 2, 5], bitmap_input = []\<rparr>"

definition batch_ctx :: EvalCtx where
  "batch_ctx = \<lparr>offset_input = None, bitmap_input = []\<rparr>"


text \<open>A prefix match on a VARCHAR column, and a text match evaluated on row offsets.\<close>

definition prefix_expr :: PhyUnaryRangeFilterExpr where
  "prefix_expr =
     example_expr\<lparr>op_type := PrefixMatch, column_data_type := VARCHAR, val := StringVal ''ap''\<rparr>"


text \<open>
  Predicates on the JSON column of the example segment, whose rows are
  \<open>{"k":1}\<close>, \<open>{"k":"1"}\<close>, \<open>{"k":1.0}\<close> and \<open>{}\<close>; a predicate on an ARRAY column.
\<close>

definition json_expr :: "OpType \<Rightarrow> GenericValue \<Rightarrow> PhyUnaryRangeFilterExpr" where
  "json_expr op literal =
     example_expr\<lparr>op_type := op, column_data_type := JSON, nested_path := [''k''],
                  val := literal\<rparr>"




section \<open>Properties of the cache\<close>



subsection \<open>The uid to cid mapping\<close>

lemma fold_insert_set:
  "set (fold (\<lambda>x acc. List.insert (f x) acc) xs acc0) = f ` set xs \<union> set acc0"
  by (induction xs arbitrary: acc0) auto


lemma involved_cids_set:
  "set (involved_cids_of translator s uids) = cell_id_of translator s ` set uids"
proof (cases "mapping_mode s")
  case IDENTICAL
  then show ?thesis
    using fold_insert_set [of "\<lambda>u. u" uids "[]"]
    by (simp add: involved_cids_of_def cell_id_of_def)
next
  case ALWAYS_ZERO
  then show ?thesis
    by (cases uids) (auto simp: involved_cids_of_def cell_id_of_def)
next
  case CUSTOM
  then show ?thesis
    using fold_insert_set [of "cell_id_of translator s" uids "[]"]
    by (simp add: involved_cids_of_def)
qed


subsection \<open>Validation comes before the first pin\<close>

lemma PinInternal_out_of_range:
  "cid \<in> set cids \<Longrightarrow> length (cells s) \<le> cid
     \<Longrightarrow> PinInternal translator s cids = (Threw OutOfRange, s)"
  unfolding PinInternal_def by auto

text \<open>
  C10. Every requested cid is checked against the number of cells of the slot before any
  cell is pinned: when a requested uid maps to a cid that is not below the cell count,
  \<open>PinCells\<close> throws OutOfRange and returns the slot exactly as it was (no pin count, no
  cell state and no trace entry has changed), and so does \<open>PinInternal\<close> on any cid
  list with such a cid.
\<close>

theorem pin_out_of_range_changes_nothing:
  assumes "uid \<in> set uids" and "length (cells s) \<le> cell_id_of translator s uid"
  shows "PinCells translator s uids = (Threw OutOfRange, s)
       \<and> (\<forall>cids. (\<exists>cid \<in> set cids. length (cells s) \<le> cid)
             \<longrightarrow> PinInternal translator s cids = (Threw OutOfRange, s))"
proof -
  have "cell_id_of translator s uid \<in> set (involved_cids_of translator s uids)"
    using assms(1) by (simp add: involved_cids_set)
  then have "PinCells translator s uids = (Threw OutOfRange, s)"
    unfolding PinCells_def using assms(2) by (rule PinInternal_out_of_range)
  then show ?thesis
    using PinInternal_out_of_range by blast
qed

theorem pin_out_of_range_changes_nothing_witness:
  "PinCells example_translator example_slot [1, 7] = (Threw OutOfRange, example_slot)
   \<and> PinInternal example_translator example_slot [0, 3] = (Threw OutOfRange, example_slot)"
proof -
  have len: "length (cells example_slot) = 3"
    by (simp add: example_slot_def CacheSlot_new_def example_translator_def)
  have m: "mapping_mode example_slot = IDENTICAL"
    by (simp add: example_slot_def CacheSlot_new_def example_translator_def)
  have a: "(7::nat) \<in> set [1, 7]" by simp
  have b: "length (cells example_slot) \<le> cell_id_of example_translator example_slot 7"
    by (simp add: len m cell_id_of_def)
  have c: "\<exists>cid \<in> set [0, 3::nat]. length (cells example_slot) \<le> cid"
    by (simp add: len)
  show ?thesis
    using pin_out_of_range_changes_nothing [OF a b] c by blast
qed

subsection \<open>Pinning, loading and the trace\<close>









lemma get_cells_calls_append: "get_cells_calls (a @ b) = get_cells_calls a @ get_cells_calls b"
  by (induction a rule: get_cells_calls.induct) simp_all

lemma reservations_append: "reservations (a @ b) = reservations a @ reservations b"
  by (induction a rule: reservations.induct) simp_all

lemma releases_append: "releases (a @ b) = releases a @ releases b"
  by (induction a rule: releases.induct) simp_all

lemma pinned_cids_append: "pinned_cids (a @ b) = pinned_cids a @ pinned_cids b"
  by (induction a rule: pinned_cids.induct) simp_all

lemma unpinned_cids_append: "unpinned_cids (a @ b) = unpinned_cids a @ unpinned_cids b"
  by (induction a rule: unpinned_cids.induct) simp_all

lemmas observe_append =
  get_cells_calls_append reservations_append releases_append pinned_cids_append
  unpinned_cids_append





lemma quiet_Nil: "quiet []" by (simp add: quiet_def)

lemma quiet_append: "quiet a \<Longrightarrow> quiet b \<Longrightarrow> quiet (a @ b)"
  by (simp add: quiet_def observe_append)


lemma set_error_trace: "\<exists>es. trace (set_error s cid ew) = trace s @ es \<and> quiet es"
proof (cases "cid < length (cells s)")
  case True
  have "quiet [EvSetError cid ew]" by (simp add: quiet_def)
  then show ?thesis using True by (auto simp: set_error_def)
next
  case False
  then show ?thesis using quiet_Nil by (auto simp: set_error_def)
qed


lemma set_errors_trace: "\<exists>es. trace (set_errors s cids ew) = trace s @ es \<and> quiet es"
proof (induction cids arbitrary: s)
  case Nil
  then show ?case using quiet_Nil by auto
next
  case (Cons cid cids)
  obtain es1 where 1: "trace (set_error s cid ew) = trace s @ es1" "quiet es1"
    using set_error_trace [of s cid ew] by auto
  obtain es2 where 2: "trace (set_errors (set_error s cid ew) cids ew) = trace (set_error s cid ew) @ es2" "quiet es2"
    using Cons.IH [of "set_error s cid ew"] by auto
  show ?case using 1 2 quiet_append [of es1 es2] by auto
qed

lemma set_error_frame:
  "length (cells (set_error s cid ew)) = length (cells s)"
  "dlist (set_error s cid ew) = dlist s"
  "mapping_mode (set_error s cid ew) = mapping_mode s"
  by (simp_all add: set_error_def)

lemma set_errors_frame:
  "length (cells (set_errors s cids ew)) = length (cells s)
   \<and> dlist (set_errors s cids ew) = dlist s
   \<and> mapping_mode (set_errors s cids ew) = mapping_mode s"
  by (induction cids arbitrary: s) (simp_all add: set_error_frame)



lemma set_error_state:
  "i < length (cells s) \<Longrightarrow>
     state (cells (set_error s cid ew) ! i) =
       (if i = cid \<and> state (cells s ! i) = LOADING then ERROR else state (cells s ! i))"
  by (auto simp: set_error_def node_set_error_def nth_list_update)

lemma set_errors_state:
  "i < length (cells s) \<Longrightarrow>
     state (cells (set_errors s cids ew) ! i) =
       (if i \<in> set cids \<and> state (cells s ! i) = LOADING then ERROR else state (cells s ! i))"
proof (induction cids arbitrary: s)
  case Nil
  then show ?case by simp
next
  case (Cons cid cids)
  have "i < length (cells (set_error s cid ew))" using Cons.prems by (simp add: set_error_frame)
  from Cons.IH [OF this] show ?case
    using Cons.prems by (auto simp: set_error_state)
qed

lemma set_error_error:
  "i < length (cells s) \<Longrightarrow>
     error (cells (set_error s cid ew) ! i) =
       (if i = cid \<and> state (cells s ! i) = LOADING then Some ew else error (cells s ! i))"
  by (auto simp: set_error_def node_set_error_def nth_list_update)

lemma set_errors_error:
  "i < length (cells s) \<Longrightarrow>
     error (cells (set_errors s cids ew) ! i) =
       (if i \<in> set cids \<and> state (cells s ! i) = LOADING then Some ew else error (cells s ! i))"
proof (induction cids arbitrary: s)
  case Nil
  then show ?case by simp
next
  case (Cons cid cids)
  have "i < length (cells (set_error s cid ew))" using Cons.prems by (simp add: set_error_frame)
  from Cons.IH [OF this] show ?case
    using Cons.prems by (auto simp: set_error_state set_error_error)
qed


lemma RunLoad_reserve_failed:
  "dlist s = Some d \<Longrightarrow> \<not> fst (reserveMemoryWithTimeout d rn) \<Longrightarrow>
   RunLoad translator s cids rn =
     set_errors (s\<lparr>dlist := Some d, trace := trace s @ [EvReserve rn False]\<rparr>) cids
       InsufficientResource"
  by (auto simp: RunLoad_def RunLoad_try_def Let_def set_errors_frame reserveMemoryWithTimeout_def
      split: sum.splits prod.splits if_splits)

lemma RunLoad_reserved:
  "dlist s = Some d \<Longrightarrow> fst (reserveMemoryWithTimeout d rn) \<Longrightarrow>
   RunLoad translator s cids rn =
     (let s2 = s\<lparr>dlist := Some (d\<lparr>used := usage_add (used d) rn\<rparr>),
                 trace := trace s @ [EvReserve rn True, EvGetCells cids]\<rparr>
      in case get_cells translator cids of
           Inl e \<Rightarrow>
             (let s3 = set_errors s2 cids e
              in s3\<lparr>dlist := Some d, trace := trace s3 @ [EvRelease rn]\<rparr>)
         | Inr results \<Rightarrow> set_cells s2 results cids)"
  by (auto simp: RunLoad_def RunLoad_try_def Let_def set_errors_frame reserveMemoryWithTimeout_def
      releaseMemory_def usage_add_def usage_sub_def
      split: sum.splits prod.splits if_splits)





subsection \<open>The cells and the budget after a load\<close>

lemma mark_loaded_state: "state (mark_loaded c p b) = LOADED"
  by (simp add: mark_loaded_def)















subsection \<open>What a pin call reserves and loads\<close>









subsection \<open>Failure of a load\<close>

lemma collect_error:
  "state (cs ! cid) = ERROR \<Longrightarrow> error (cs ! cid) = Some e \<Longrightarrow> collect cs [cid] [] = Threw e"
  by simp

text \<open>
  C2. A load attempt is \<open>RunLoad\<close> on the cells that the pin call elected (they are
  LOADING), with a budget present. If the reservation fails, \<open>get_cells\<close> is not called,
  nothing is released and the budget is as before. If the reservation succeeds and
  \<open>get_cells\<close> throws, the reserved amount is released and the budget is as before. In
  both cases every elected cell is moved to ERROR by \<open>set_error\<close> with the error of the
  failure (InsufficientResource, or the Translator's exception), a caller waiting for the
  cell gets that error, and no cell that was not LOADED before is LOADED after.
\<close>

theorem RunLoad_failure_paths:
  assumes elected: "\<forall>cid \<in> set cids. cid < length (cells s) \<and> state (cells s ! cid) = LOADING"
      and d: "dlist s = Some d"
      and s': "s' = RunLoad translator s cids resource_needed"
  shows "(\<not> fst (reserveMemoryWithTimeout d resource_needed) \<longrightarrow>
             get_cells_calls (new_events s s') = []
           \<and> releases (new_events s s') = []
           \<and> dlist s' = dlist s
           \<and> (\<forall>cid \<in> set cids. state (cells s' ! cid) = ERROR
                  \<and> error (cells s' ! cid) = Some InsufficientResource
                  \<and> collect (cells s') [cid] [] = Threw InsufficientResource))
       \<and> (fst (reserveMemoryWithTimeout d resource_needed) \<and> get_cells translator cids = Inl e \<longrightarrow>
             get_cells_calls (new_events s s') = [cids]
           \<and> reservations (new_events s s') = [resource_needed]
           \<and> releases (new_events s s') = [resource_needed]
           \<and> dlist s' = dlist s
           \<and> (\<forall>cid \<in> set cids. state (cells s' ! cid) = ERROR
                  \<and> error (cells s' ! cid) = Some e
                  \<and> collect (cells s') [cid] [] = Threw e))
       \<and> (\<not> fst (reserveMemoryWithTimeout d resource_needed) \<or> get_cells translator cids = Inl e \<longrightarrow>
             (\<forall>i < length (cells s). state (cells s' ! i) = LOADED \<longrightarrow> state (cells s ! i) = LOADED))"
proof (intro conjI impI)
  assume fail: "\<not> fst (reserveMemoryWithTimeout d resource_needed)"
  let ?s0 = "s\<lparr>dlist := Some d, trace := trace s @ [EvReserve resource_needed False]\<rparr>"
  have eq: "s' = set_errors ?s0 cids InsufficientResource"
    using s' RunLoad_reserve_failed [OF d fail] by simp
  obtain es where es: "trace s' = trace ?s0 @ es" "quiet es"
    using set_errors_trace [of ?s0 cids InsufficientResource] eq by auto
  then have ne: "new_events s s' = EvReserve resource_needed False # es"
    by (simp add: new_events_def)
  show "get_cells_calls (new_events s s') = []" using ne es(2) by (simp add: quiet_def)
  show "releases (new_events s s') = []" using ne es(2) by (simp add: quiet_def)
  show "dlist s' = dlist s" using eq d set_errors_frame [of ?s0 cids InsufficientResource] by simp
  show "\<forall>cid \<in> set cids. state (cells s' ! cid) = ERROR
                  \<and> error (cells s' ! cid) = Some InsufficientResource
                  \<and> collect (cells s') [cid] [] = Threw InsufficientResource"
  proof
    fix cid assume c: "cid \<in> set cids"
    then have i: "cid < length (cells ?s0)" and l: "state (cells ?s0 ! cid) = LOADING"
      using elected by simp_all
    have 1: "state (cells s' ! cid) = ERROR"
      using set_errors_state [OF i, of cids InsufficientResource] c l eq by simp
    have 2: "error (cells s' ! cid) = Some InsufficientResource"
      using set_errors_error [OF i, of cids InsufficientResource] c l eq by simp
    show "state (cells s' ! cid) = ERROR
                  \<and> error (cells s' ! cid) = Some InsufficientResource
                  \<and> collect (cells s') [cid] [] = Threw InsufficientResource"
      using 1 2 collect_error [OF 1 2] by simp
  qed
next
  assume "fst (reserveMemoryWithTimeout d resource_needed) \<and> get_cells translator cids = Inl e"
  then have ok: "fst (reserveMemoryWithTimeout d resource_needed)"
    and thr: "get_cells translator cids = Inl e" by simp_all
  let ?s2 = "s\<lparr>dlist := Some (d\<lparr>used := usage_add (used d) resource_needed\<rparr>),
               trace := trace s @ [EvReserve resource_needed True, EvGetCells cids]\<rparr>"
  let ?s3 = "set_errors ?s2 cids e"
  have eq: "s' = ?s3\<lparr>dlist := Some d, trace := trace ?s3 @ [EvRelease resource_needed]\<rparr>"
    using s' RunLoad_reserved [OF d ok, of translator cids] thr by (simp add: Let_def)
  obtain es where es: "trace ?s3 = trace ?s2 @ es" "quiet es"
    using set_errors_trace [of ?s2 cids e] by auto
  have ne: "new_events s s'
            = EvReserve resource_needed True # EvGetCells cids # es @ [EvRelease resource_needed]"
    using eq es(1) by (simp add: new_events_def)
  show "get_cells_calls (new_events s s') = [cids]"
    using ne es(2) by (simp add: quiet_def observe_append)
  show "reservations (new_events s s') = [resource_needed]"
    using ne es(2) by (simp add: quiet_def observe_append)
  show "releases (new_events s s') = [resource_needed]"
    using ne es(2) by (simp add: quiet_def observe_append)
  show "dlist s' = dlist s" using eq d by simp
  show "\<forall>cid \<in> set cids. state (cells s' ! cid) = ERROR
                  \<and> error (cells s' ! cid) = Some e
                  \<and> collect (cells s') [cid] [] = Threw e"
  proof
    fix cid assume c: "cid \<in> set cids"
    then have i: "cid < length (cells ?s2)" and l: "state (cells ?s2 ! cid) = LOADING"
      using elected by simp_all
    have cs: "cells s' = cells ?s3" using eq by simp
    have 1: "state (cells s' ! cid) = ERROR"
      using set_errors_state [OF i, of cids e] c l cs by simp
    have 2: "error (cells s' ! cid) = Some e"
      using set_errors_error [OF i, of cids e] c l cs by simp
    show "state (cells s' ! cid) = ERROR \<and> error (cells s' ! cid) = Some e
                  \<and> collect (cells s') [cid] [] = Threw e"
      using 1 2 collect_error [OF 1 2] by simp
  qed
next
  assume dis: "\<not> fst (reserveMemoryWithTimeout d resource_needed) \<or> get_cells translator cids = Inl e"
  show "\<forall>i < length (cells s). state (cells s' ! i) = LOADED \<longrightarrow> state (cells s ! i) = LOADED"
  proof (intro allI impI)
    fix i assume i: "i < length (cells s)" and ld: "state (cells s' ! i) = LOADED"
    show "state (cells s ! i) = LOADED"
    proof (cases "fst (reserveMemoryWithTimeout d resource_needed)")
      case False
      let ?s0 = "s\<lparr>dlist := Some d, trace := trace s @ [EvReserve resource_needed False]\<rparr>"
      have eq: "s' = set_errors ?s0 cids InsufficientResource"
        using s' RunLoad_reserve_failed [OF d False] by simp
      have "i < length (cells ?s0)" using i by simp
      from set_errors_state [OF this, of cids InsufficientResource] ld eq
      show ?thesis by (simp split: if_splits)
    next
      case True
      then have thr: "get_cells translator cids = Inl e" using dis by simp
      let ?s2 = "s\<lparr>dlist := Some (d\<lparr>used := usage_add (used d) resource_needed\<rparr>),
               trace := trace s @ [EvReserve resource_needed True, EvGetCells cids]\<rparr>"
      let ?s3 = "set_errors ?s2 cids e"
      have eq: "s' = ?s3\<lparr>dlist := Some d, trace := trace ?s3 @ [EvRelease resource_needed]\<rparr>"
        using s' RunLoad_reserved [OF d True, of translator cids] thr by (simp add: Let_def)
      have cs: "cells s' = cells ?s3" using eq by simp
      have "i < length (cells ?s2)" using i by simp
      from set_errors_state [OF this, of cids e] ld cs
      show ?thesis by (simp split: if_splits)
    qed
  qed
qed

lemma loading_slot_cells:
  "cells (loading_slot d) =
     [\<lparr>state = LOADING, pin_count = 1, cell_size = \<lparr>memory_bytes = 10, file_bytes = 1\<rparr>,
       cell = None, error = None\<rparr>,
      \<lparr>state = LOADING, pin_count = 1, cell_size = \<lparr>memory_bytes = 20, file_bytes = 1\<rparr>,
       cell = None, error = None\<rparr>,
      \<lparr>state = NOT_LOADED, pin_count = 0, cell_size = \<lparr>memory_bytes = 30, file_bytes = 1\<rparr>,
       cell = None, error = None\<rparr>]"
  by (simp add: loading_slot_def CacheSlot_new_def example_translator_def pin_def Let_def
      upt_rec usage_zero_def usage_add_def)

lemma loading_slot_dlist: "dlist (loading_slot d) = Some d"
  by (simp add: loading_slot_def CacheSlot_new_def example_translator_def pin_def Let_def
      upt_rec usage_zero_def usage_add_def)

theorem RunLoad_failure_paths_witness:
  "length (cells (loading_slot tight_dlist)) = 3
   \<and> state (cells (loading_slot tight_dlist) ! 1) = LOADING
   \<and> state (cells (loading_slot tight_dlist) ! 0) = LOADING
   \<and> dlist (loading_slot tight_dlist) = Some tight_dlist
   \<and> \<not> fst (reserveMemoryWithTimeout tight_dlist \<lparr>memory_bytes = 30, file_bytes = 2\<rparr>)
   \<and> get_cells_calls (new_events (loading_slot tight_dlist)
         (RunLoad example_translator (loading_slot tight_dlist) [1, 0]
            \<lparr>memory_bytes = 30, file_bytes = 2\<rparr>)) = []
   \<and> releases (new_events (loading_slot tight_dlist)
         (RunLoad example_translator (loading_slot tight_dlist) [1, 0]
            \<lparr>memory_bytes = 30, file_bytes = 2\<rparr>)) = []
   \<and> length (cells (loading_slot example_dlist)) = 3
   \<and> state (cells (loading_slot example_dlist) ! 1) = LOADING
   \<and> state (cells (loading_slot example_dlist) ! 0) = LOADING
   \<and> dlist (loading_slot example_dlist) = Some example_dlist
   \<and> fst (reserveMemoryWithTimeout example_dlist \<lparr>memory_bytes = 30, file_bytes = 2\<rparr>)
   \<and> get_cells failing_translator [1, 0] = Inl FileReadFailed
   \<and> releases (new_events (loading_slot example_dlist)
         (RunLoad failing_translator (loading_slot example_dlist) [1, 0]
            \<lparr>memory_bytes = 30, file_bytes = 2\<rparr>)) = [\<lparr>memory_bytes = 30, file_bytes = 2\<rparr>]
   \<and> state (cells (RunLoad failing_translator (loading_slot example_dlist) [1, 0]
            \<lparr>memory_bytes = 30, file_bytes = 2\<rparr>) ! 0) = ERROR"
proof -
  let ?rn = "\<lparr>memory_bytes = 30, file_bytes = 2\<rparr>"
  have e1: "\<forall>cid \<in> set [1, 0]. cid < length (cells (loading_slot tight_dlist))
        \<and> state (cells (loading_slot tight_dlist) ! cid) = LOADING"
    by (simp add: loading_slot_cells)
  have d1: "dlist (loading_slot tight_dlist) = Some tight_dlist" by (rule loading_slot_dlist)
  have f1: "\<not> fst (reserveMemoryWithTimeout tight_dlist ?rn)"
    by (simp add: reserveMemoryWithTimeout_def tight_dlist_def usage_zero_def)
  have e2: "\<forall>cid \<in> set [1, 0]. cid < length (cells (loading_slot example_dlist))
        \<and> state (cells (loading_slot example_dlist) ! cid) = LOADING"
    by (simp add: loading_slot_cells)
  have d2: "dlist (loading_slot example_dlist) = Some example_dlist" by (rule loading_slot_dlist)
  have f2: "fst (reserveMemoryWithTimeout example_dlist ?rn)"
    by (simp add: reserveMemoryWithTimeout_def example_dlist_def usage_zero_def)
  have g2: "get_cells failing_translator [1, 0] = Inl FileReadFailed"
    by (simp add: failing_translator_def)
  note a = RunLoad_failure_paths [OF e1 d1 refl, where translator = example_translator
      and resource_needed = ?rn and e = FileReadFailed]
  note b = RunLoad_failure_paths [OF e2 d2 refl, where translator = failing_translator
      and resource_needed = ?rn and e = FileReadFailed]
  have c: "length (cells (loading_slot tight_dlist)) = 3"
    "state (cells (loading_slot tight_dlist) ! 1) = LOADING"
    "state (cells (loading_slot tight_dlist) ! 0) = LOADING"
    "length (cells (loading_slot example_dlist)) = 3"
    "state (cells (loading_slot example_dlist) ! 1) = LOADING"
    "state (cells (loading_slot example_dlist) ! 0) = LOADING"
    by (simp_all add: loading_slot_cells)
  show ?thesis
    using a b c d1 f1 d2 f2 g2 by simp
qed

subsection \<open>Warmup\<close>





lemma drop_accessor_frame:
  "length (cells (drop_accessor s pins)) = length (cells s)
   \<and> dlist (drop_accessor s pins) = dlist s
   \<and> mapping_mode (drop_accessor s pins) = mapping_mode s"
  by (induction pins arbitrary: s) simp_all








section \<open>Properties of the executor\<close>

lemmas example_expr_defs =
  example_expr_def example_base_def text_expr_def text_expr_cached_def phrase_expr_def
  init_arg_def

lemmas example_segment_defs = example_segment_def example_next_batch_def


subsection \<open>The literal and the offset flag\<close>

lemma calls_init_arg: "calls (init_arg e) = calls e"
  by (simp add: init_arg_def)

lemma init_arg_fields:
  "cached_match_res (init_arg e) = cached_match_res e"
  "cached_ngram_match_res (init_arg e) = cached_ngram_match_res e"
  "cached_index_chunk_valid_res (init_arg e) = cached_index_chunk_valid_res e"
  "base (init_arg e) = base e"
  "op_type (init_arg e) = op_type e"
  "val (init_arg e) = val e"
  "overflow_check_pos (init_arg e) = overflow_check_pos e"
  "arg_inited (init_arg e) = True"
  "column_data_type (init_arg e) = column_data_type e"
  "column_element_type (init_arg e) = column_element_type e"
  "nested_path (init_arg e) = nested_path e"
  "extra_values (init_arg e) = extra_values e"
  by (simp_all add: init_arg_def)

lemma SetHasOffsetInput_fields:
  "calls (SetHasOffsetInput b e) = calls e"
  "op_type (SetHasOffsetInput b e) = op_type e"
  "column_data_type (SetHasOffsetInput b e) = column_data_type e"
  "val (SetHasOffsetInput b e) = val e"
  "has_offset_input (base (SetHasOffsetInput b e)) = b"
  "nested_path (SetHasOffsetInput b e) = nested_path e"
  "arg_inited (SetHasOffsetInput b e) = arg_inited e"
  "value_arg (SetHasOffsetInput b e) = value_arg e"
  "cached_ngram_match_res (SetHasOffsetInput b e) = cached_ngram_match_res e"
  "cached_match_res (SetHasOffsetInput b e) = cached_match_res e"
  "extra_values (SetHasOffsetInput b e) = extra_values e"
  "is_index_mode (base (SetHasOffsetInput b e)) = is_index_mode (base e)"
  "active_count (base (SetHasOffsetInput b e)) = active_count (base e)"
  "current_data_global_pos (base (SetHasOffsetInput b e)) = current_data_global_pos (base e)"
  by (simp_all add: SetHasOffsetInput_def)

lemma Eval_scalar:
  assumes "scalar_elem_type seg (column_data_type e) = Some T"
  shows "Eval seg context e =
           ExecRangeVisitorImpl seg T context (SetHasOffsetInput (offset_input context \<noteq> None) e)"
  using assms
  by (cases "column_data_type e")
     (auto simp: Eval_def scalar_elem_type_def Let_def SetHasOffsetInput_fields)

lemma init_arg_SetHasOffsetInput:
  "value_arg (init_arg (SetHasOffsetInput b e)) = value_arg (init_arg e)"
  by (simp add: init_arg_def SetHasOffsetInput_def)

subsection \<open>Phrase match: the slop\<close>

lemma ucast_slop:
  fixes v :: "64 word"
  assumes "0 \<le> sint v" "sint v \<le> uint32_max"
  shows "uint (ucast v :: 32 word) = sint v"
proof -
  have lt: "sint v < 2 ^ 32" using assms(2) by (simp add: uint32_max_def)
  then have "sint v < 2 ^ 64" by simp
  then have "uint v = sint v"
    using assms(1) uint_sint [of v] by (simp add: take_bit_int_eq_self)
  then have "uint (ucast v :: 32 word) = take_bit 32 (sint v)"
    by (simp add: unsigned_ucast_eq)
  then show ?thesis using assms(1) lt by (simp add: take_bit_int_eq_self)
qed

lemma phrase_slop_init_arg: "phrase_slop (init_arg e) = phrase_slop e"
  by (simp add: phrase_slop_def init_arg_def)

lemma ExecTextMatch_rejected:
  "value_arg (init_arg e) = StringVal q \<Longrightarrow> phrase_slop e = Inl err
     \<Longrightarrow> ExecTextMatch seg e = (Inl err, init_arg e)"
  by (simp add: ExecTextMatch_def Let_def phrase_slop_init_arg)

text \<open>
  What \<open>ExecTextMatch\<close> does with a string query and a slop that passes the check: with
  no rows in the batch, nothing; on the first batch, the query on the index, whose bitmap
  and whose not-null bitmap are cached with the tail appended to both; on every batch,
  the slices of the cached bitmaps at the cursor.
\<close>

lemma ExecTextMatch_empty:
  assumes "value_arg (init_arg e) = StringVal q" and "phrase_slop e = Inr slop"
      and "GetNextBatchSize seg (base e) = 0"
  shows "ExecTextMatch seg e = (Inr None, init_arg e)"
  using assms by (simp add: ExecTextMatch_def Let_def phrase_slop_init_arg init_arg_fields)

lemma ExecTextMatch_first:
  assumes q: "value_arg (init_arg e) = StringVal q" and s: "phrase_slop e = Inr slop"
      and op: "op_type e = TextMatch \<or> op_type e = PhraseMatch"
      and n: "n = GetNextBatchSize seg (base e)" "n \<noteq> 0"
      and none: "cached_match_res e = None"
      and res: "res = (if op_type e = TextMatch then text_MatchQuery seg q
                       else text_PhraseMatchQuery seg q (ucast slop))"
      and tail: "tail = replicate (nat (active_count (base e) - int (length res))) False"
      and pos: "pos = current_data_global_pos (base e)"
  shows "ExecTextMatch seg e =
      (Inr (Some \<lparr>data = bitmap_slice (res @ tail) pos n,
                  valid_data = bitmap_slice (text_IsNotNull seg @ tail) pos n\<rparr>),
       (init_arg e)\<lparr>cached_match_res := Some (res @ tail),
                    cached_index_chunk_valid_res := text_IsNotNull seg @ tail,
                    calls := calls e
                      @ [if op_type e = TextMatch then TextIndex_MatchQuery q
                         else TextIndex_PhraseMatchQuery q (ucast slop), TextIndex_IsNotNull],
                    base := MoveCursor seg (base e)\<rparr>)"
proof -
  have tq: "text_query seg (op_type e) slop q =
              Inr (res, if op_type e = TextMatch then TextIndex_MatchQuery q
                        else TextIndex_PhraseMatchQuery q (ucast slop))"
    using op res by (auto simp: text_query_def)
  have t0: "\<not> int (length res) < active_count (base e) \<Longrightarrow> tail = []"
    using tail by simp
  show ?thesis
  proof (cases "int (length res) < active_count (base e)")
    case True
    then show ?thesis
      using q s n pos tail none tq
      by (simp add: ExecTextMatch_def Let_def phrase_slop_init_arg init_arg_fields calls_init_arg)
  next
    case False
    then show ?thesis
      using q s n pos t0 none tq
      by (simp add: ExecTextMatch_def Let_def phrase_slop_init_arg init_arg_fields calls_init_arg)
  qed
qed

lemma ExecTextMatch_cached:
  assumes q: "value_arg (init_arg e) = StringVal q" and s: "phrase_slop e = Inr slop"
      and n: "n = GetNextBatchSize seg (base e)" "n \<noteq> 0"
      and c: "cached_match_res e = Some c"
      and pos: "pos = current_data_global_pos (base e)"
  shows "ExecTextMatch seg e =
      (Inr (Some \<lparr>data = bitmap_slice c pos n,
                  valid_data = bitmap_slice (cached_index_chunk_valid_res e) pos n\<rparr>),
       (init_arg e)\<lparr>base := MoveCursor seg (base e)\<rparr>)"
  using q s n pos c
  by (simp add: ExecTextMatch_def Let_def phrase_slop_init_arg init_arg_fields)

text \<open>
  A phrase match that is evaluated on row offsets throws OpTypeInvalid, whatever its
  slop: here the slop is -1.
\<close>

theorem phrase_match_offset_input_counterexample:
  "op_type (phrase_expr (- 1)) = PhraseMatch
   \<and> extra_values (phrase_expr (- 1)) = [Int64Val (- 1)]
   \<and> sint (- 1 :: 64 word) < 0
   \<and> offset_input offsets_ctx = Some [0, 2, 5]
   \<and> fst (Eval example_segment offsets_ctx (phrase_expr (- 1))) = Inl OpTypeInvalid"
  by (simp add: offsets_ctx_def Eval_def ExecRangeVisitorImpl_def SetHasOffsetInput_def Let_def
      phrase_expr_def example_expr_def example_segment_def)

text \<open>
  C9, as the code has it. \<open>e0\<close> is the expression as \<open>Eval\<close> sets it up. A PhraseMatch on
  a scalar column that is evaluated on row offsets throws OpTypeInvalid before the slop is
  looked at; without row offsets the evaluation is \<open>ExecTextMatch\<close>. There the slop is the
  first extra value, or 0 when there is none. When it is negative or above \<open>UINT32_MAX\<close>,
  \<open>ExecTextMatch\<close> throws InvalidParameter and no call to the text index has been made.
  Otherwise the only query that the evaluation makes on the text index (it makes it when
  the result is not cached yet and the batch is not empty) is \<open>PhraseMatchQuery\<close> with the
  query string and a \<open>uint32_t\<close> slop of exactly that value, and the bitmap that this
  query returns is the one that is cached (with its tail of false bits up to
  \<open>active_count\<close>) and sliced for the batch.
\<close>

theorem phrase_match_slop_checked:
  fixes seg :: Segment and ctx :: EvalCtx and e :: PhyUnaryRangeFilterExpr
  defines "e0 \<equiv> SetHasOffsetInput (offset_input ctx \<noteq> None) e"
  defines "n \<equiv> GetNextBatchSize seg (base e0)"
      and "pos \<equiv> current_data_global_pos (base e)"
  assumes op: "op_type e = PhraseMatch"
      and q: "value_arg (init_arg e) = StringVal q"
      and ev: "extra_values e = [] \<or> extra_values e ! 0 = Int64Val v"
      and slop: "slop = (if extra_values e = [] then 0 else v)"
      and T: "scalar_elem_type seg (column_data_type e) = Some T"
  shows "(offset_input ctx \<noteq> None \<longrightarrow> Eval seg ctx e = (Inl OpTypeInvalid, e0))
       \<and> (offset_input ctx = None \<longrightarrow> Eval seg ctx e = ExecTextMatch seg e0)
       \<and> (sint slop < 0 \<or> sint slop > 4294967295 \<longrightarrow>
            ExecTextMatch seg e0 = (Inl InvalidParameter, init_arg e0)
          \<and> calls (snd (ExecTextMatch seg e0)) = calls e)
       \<and> (0 \<le> sint slop \<and> sint slop \<le> 4294967295 \<longrightarrow>
            (\<exists>w :: 32 word. uint w = sint slop
               \<and> calls (snd (ExecTextMatch seg e0)) =
                   (if cached_match_res e = None \<and> n \<noteq> 0
                    then calls e @ [TextIndex_PhraseMatchQuery q w, TextIndex_IsNotNull]
                    else calls e)
               \<and> (cached_match_res e = None \<and> n \<noteq> 0 \<longrightarrow>
                    (\<exists>tail. tail = replicate (nat (active_count (base e)
                                       - int (length (text_PhraseMatchQuery seg q w)))) False
                       \<and> cached_match_res (snd (ExecTextMatch seg e0))
                           = Some (text_PhraseMatchQuery seg q w @ tail)
                       \<and> cached_index_chunk_valid_res (snd (ExecTextMatch seg e0))
                           = text_IsNotNull seg @ tail
                       \<and> fst (ExecTextMatch seg e0) =
                           Inr (Some \<lparr>data = bitmap_slice (text_PhraseMatchQuery seg q w @ tail)
                                                pos n,
                                      valid_data = bitmap_slice (text_IsNotNull seg @ tail)
                                                pos n\<rparr>)))))"
proof (intro conjI impI)
  have ev': "Eval seg ctx e = ExecRangeVisitorImpl seg T ctx e0"
    using Eval_scalar [OF T, of ctx] by (simp add: e0_def)
  {
    assume "offset_input ctx \<noteq> None"
    then show "Eval seg ctx e = (Inl OpTypeInvalid, e0)"
      using ev' op by (simp add: ExecRangeVisitorImpl_def e0_def SetHasOffsetInput_fields)
  }
  {
    assume "offset_input ctx = None"
    then show "Eval seg ctx e = ExecTextMatch seg e0"
      using ev' op by (simp add: ExecRangeVisitorImpl_def e0_def SetHasOffsetInput_fields)
  }
  have op0: "op_type e0 = PhraseMatch" using op by (simp add: e0_def SetHasOffsetInput_fields)
  have q0: "value_arg (init_arg e0) = StringVal q"
    using q by (simp add: e0_def init_arg_SetHasOffsetInput)
  have ps0: "phrase_slop e0 = phrase_slop e"
    by (simp add: phrase_slop_def e0_def SetHasOffsetInput_fields)
  have c0: "calls e0 = calls e" "cached_match_res e0 = cached_match_res e"
    "active_count (base e0) = active_count (base e)"
    "current_data_global_pos (base e0) = current_data_global_pos (base e)"
    by (simp_all add: e0_def SetHasOffsetInput_fields)
  {
    assume bad: "sint slop < 0 \<or> sint slop > 4294967295"
    have "phrase_slop e0 = Inl InvalidParameter"
      unfolding ps0 using op ev slop bad by (auto simp: phrase_slop_def uint32_max_def)
    from ExecTextMatch_rejected [OF q0 this]
    show r: "ExecTextMatch seg e0 = (Inl InvalidParameter, init_arg e0)" .
    show "calls (snd (ExecTextMatch seg e0)) = calls e" by (simp add: r calls_init_arg c0)
  }
  {
    assume ok: "0 \<le> sint slop \<and> sint slop \<le> 4294967295"
    have s: "phrase_slop e0 = Inr slop"
      unfolding ps0 using op ev slop ok by (auto simp: phrase_slop_def uint32_max_def)
    have w: "uint (ucast slop :: 32 word) = sint slop"
      using ok by (intro ucast_slop) (simp_all add: uint32_max_def)
    let ?w = "ucast slop :: 32 word"
    let ?res = "text_PhraseMatchQuery seg q ?w"
    let ?tail = "replicate (nat (active_count (base e) - int (length ?res))) False"
    have first: "cached_match_res e = None \<and> n \<noteq> 0 \<Longrightarrow>
        ExecTextMatch seg e0 =
          (Inr (Some \<lparr>data = bitmap_slice (?res @ ?tail) pos n,
                      valid_data = bitmap_slice (text_IsNotNull seg @ ?tail) pos n\<rparr>),
           (init_arg e0)\<lparr>cached_match_res := Some (?res @ ?tail),
                    cached_index_chunk_valid_res := text_IsNotNull seg @ ?tail,
                    calls := calls e @ [TextIndex_PhraseMatchQuery q ?w, TextIndex_IsNotNull],
                    base := MoveCursor seg (base e0)\<rparr>)"
      using ExecTextMatch_first [OF q0 s, of n seg ?res ?tail pos] op0 c0
      by (simp add: n_def pos_def)
    have calls: "calls (snd (ExecTextMatch seg e0)) =
                   (if cached_match_res e = None \<and> n \<noteq> 0
                    then calls e @ [TextIndex_PhraseMatchQuery q ?w, TextIndex_IsNotNull]
                    else calls e)"
    proof (cases "n = 0")
      case True
      then show ?thesis
        using ExecTextMatch_empty [OF q0 s, of seg] by (simp add: n_def calls_init_arg c0)
    next
      case False
      show ?thesis
      proof (cases "cached_match_res e")
        case None
        then show ?thesis using first False by simp
      next
        case (Some c)
        then show ?thesis
          using ExecTextMatch_cached [OF q0 s, of n seg c pos] False c0
          by (simp add: n_def pos_def calls_init_arg)
      qed
    qed
    show "\<exists>w :: 32 word. uint w = sint slop
               \<and> calls (snd (ExecTextMatch seg e0)) =
                   (if cached_match_res e = None \<and> n \<noteq> 0
                    then calls e @ [TextIndex_PhraseMatchQuery q w, TextIndex_IsNotNull]
                    else calls e)
               \<and> (cached_match_res e = None \<and> n \<noteq> 0 \<longrightarrow>
                    (\<exists>tail. tail = replicate (nat (active_count (base e)
                                       - int (length (text_PhraseMatchQuery seg q w)))) False
                       \<and> cached_match_res (snd (ExecTextMatch seg e0))
                           = Some (text_PhraseMatchQuery seg q w @ tail)
                       \<and> cached_index_chunk_valid_res (snd (ExecTextMatch seg e0))
                           = text_IsNotNull seg @ tail
                       \<and> fst (ExecTextMatch seg e0) =
                           Inr (Some \<lparr>data = bitmap_slice (text_PhraseMatchQuery seg q w @ tail)
                                                pos n,
                                      valid_data = bitmap_slice (text_IsNotNull seg @ tail)
                                                pos n\<rparr>)))"
    proof (intro exI [of _ ?w] conjI impI)
      show "uint ?w = sint slop" by (rule w)
      show "calls (snd (ExecTextMatch seg e0)) =
                   (if cached_match_res e = None \<and> n \<noteq> 0
                    then calls e @ [TextIndex_PhraseMatchQuery q ?w, TextIndex_IsNotNull]
                    else calls e)" by (rule calls)
      assume f: "cached_match_res e = None \<and> n \<noteq> 0"
      show "\<exists>tail. tail = ?tail
                       \<and> cached_match_res (snd (ExecTextMatch seg e0)) = Some (?res @ tail)
                       \<and> cached_index_chunk_valid_res (snd (ExecTextMatch seg e0))
                           = text_IsNotNull seg @ tail
                       \<and> fst (ExecTextMatch seg e0) =
                           Inr (Some \<lparr>data = bitmap_slice (?res @ tail) pos n,
                                      valid_data = bitmap_slice (text_IsNotNull seg @ tail)
                                                pos n\<rparr>)"
        using first [OF f] by simp
    qed
  }
qed

theorem phrase_match_slop_checked_witness:
  "op_type (phrase_expr 4294967296) = PhraseMatch
   \<and> value_arg (init_arg (phrase_expr 4294967296)) = StringVal ''hello world''
   \<and> scalar_elem_type example_segment (column_data_type (phrase_expr 4294967296)) = Some T_string
   \<and> sint (4294967296 :: 64 word) > 4294967295
   \<and> offset_input batch_ctx = None
   \<and> fst (Eval example_segment batch_ctx (phrase_expr 4294967296)) = Inl InvalidParameter
   \<and> calls (snd (Eval example_segment batch_ctx (phrase_expr 4294967296))) = []
   \<and> offset_input offsets_ctx \<noteq> None
   \<and> fst (Eval example_segment offsets_ctx (phrase_expr 4294967296)) = Inl OpTypeInvalid
   \<and> op_type (phrase_expr 3) = PhraseMatch
   \<and> value_arg (init_arg (phrase_expr 3)) = StringVal ''hello world''
   \<and> scalar_elem_type example_segment (column_data_type (phrase_expr 3)) = Some T_string
   \<and> 0 \<le> sint (3 :: 64 word) \<and> sint (3 :: 64 word) \<le> 4294967295
   \<and> cached_match_res (phrase_expr 3) = None
   \<and> (\<exists>w :: 32 word. uint w = 3
         \<and> calls (snd (Eval example_segment batch_ctx (phrase_expr 3)))
             = [TextIndex_PhraseMatchQuery ''hello world'' w, TextIndex_IsNotNull]
         \<and> cached_match_res (snd (Eval example_segment batch_ctx (phrase_expr 3)))
             = Some (text_PhraseMatchQuery example_segment ''hello world'' w @ replicate 3 False)
         \<and> fst (Eval example_segment batch_ctx (phrase_expr 3))
             = Inr (Some \<lparr>data = take 4 (text_PhraseMatchQuery example_segment ''hello world'' w),
                          valid_data = [True, True, True, False]\<rparr>))"
proof -
  let ?big = "phrase_expr 4294967296" and ?ok = "phrase_expr 3"
  have a1: "op_type ?big = PhraseMatch"
    and a2: "value_arg (init_arg ?big) = StringVal ''hello world''"
    and a3: "extra_values ?big = [] \<or> extra_values ?big ! 0 = Int64Val 4294967296"
    and a4: "(4294967296 :: 64 word) = (if extra_values ?big = [] then 0 else 4294967296)"
    and a5: "scalar_elem_type example_segment (column_data_type ?big) = Some T_string"
    by (simp_all add: example_expr_defs scalar_elem_type_def example_segment_def)
  have b1: "op_type ?ok = PhraseMatch"
    and b2: "value_arg (init_arg ?ok) = StringVal ''hello world''"
    and b3: "extra_values ?ok = [] \<or> extra_values ?ok ! 0 = Int64Val 3"
    and b4: "(3 :: 64 word) = (if extra_values ?ok = [] then 0 else 3)"
    and b5: "scalar_elem_type example_segment (column_data_type ?ok) = Some T_string"
    by (simp_all add: example_expr_defs scalar_elem_type_def example_segment_def)
  have big: "sint (4294967296 :: 64 word) > 4294967295" by simp
  have small: "0 \<le> sint (3 :: 64 word)" "sint (3 :: 64 word) \<le> 4294967295" by simp_all
  have ctx: "offset_input batch_ctx = None" "offset_input offsets_ctx \<noteq> None"
    by (simp_all add: batch_ctx_def offsets_ctx_def)
  have c: "cached_match_res ?ok = None"
    "GetNextBatchSize example_segment (base (SetHasOffsetInput False ?ok)) = 4"
    "calls ?ok = []" "calls ?big = []"
    "active_count (base ?ok) = 10" "current_data_global_pos (base ?ok) = 0"
    "text_IsNotNull example_segment = [True, True, True, False, True, True, True]"
    "\<And>w. length (text_PhraseMatchQuery example_segment ''hello world'' w) = 7"
    by (simp_all add: example_expr_defs example_segment_defs SetHasOffsetInput_def)
  note A = phrase_match_slop_checked [OF a1 a2 a3 a4 a5, where ctx = batch_ctx, unfolded ctx]
  note A' = phrase_match_slop_checked [OF a1 a2 a3 a4 a5, where ctx = offsets_ctx]
  note B = phrase_match_slop_checked [OF b1 b2 b3 b4 b5, where ctx = batch_ctx, unfolded ctx]
  have A2: "Eval example_segment batch_ctx ?big = ExecTextMatch example_segment (SetHasOffsetInput (None \<noteq> None) ?big)"
    using A [THEN conjunct2, THEN conjunct1] by simp
  note A3 = A [THEN conjunct2, THEN conjunct2, THEN conjunct1, rule_format, OF disjI2, OF big]
  have r1: "fst (Eval example_segment batch_ctx ?big) = Inl InvalidParameter"
    "calls (snd (Eval example_segment batch_ctx ?big)) = []"
    using A2 A3 [THEN conjunct1] A3 [THEN conjunct2] c(4) by simp_all
  have r2: "fst (Eval example_segment offsets_ctx ?big) = Inl OpTypeInvalid"
    using A' [THEN conjunct1] ctx(2) by simp
  have B2: "Eval example_segment batch_ctx ?ok = ExecTextMatch example_segment (SetHasOffsetInput False ?ok)"
    using B [THEN conjunct2, THEN conjunct1] by simp
  have B4: "\<exists>w :: 32 word. uint w = 3
         \<and> calls (snd (Eval example_segment batch_ctx ?ok))
             = [TextIndex_PhraseMatchQuery ''hello world'' w, TextIndex_IsNotNull]
         \<and> cached_match_res (snd (Eval example_segment batch_ctx ?ok))
             = Some (text_PhraseMatchQuery example_segment ''hello world'' w @ replicate 3 False)
         \<and> fst (Eval example_segment batch_ctx ?ok)
             = Inr (Some \<lparr>data = take 4 (text_PhraseMatchQuery example_segment ''hello world'' w),
                          valid_data = [True, True, True, False]\<rparr>)"
    using B [THEN conjunct2, THEN conjunct2, THEN conjunct2] small c
    unfolding B2
    by (auto simp: bitmap_slice_def eval_nat_numeral)
  show ?thesis
    using a1 a2 a5 big ctx r1 r2 b1 b2 b5 small c(1) B4 by (intro conjI)
qed

subsection \<open>Text match on a growing segment\<close>




subsection \<open>Integer overflow pre-check\<close>

lemma inplace_and_length: "length (inplace_and res valid_res) = length res"
  by (simp add: inplace_and_def)

lemma inplace_and_all_true:
  "i < n \<Longrightarrow> i < length valid_res \<Longrightarrow> inplace_and (replicate n True) valid_res ! i = valid_res ! i"
  by (simp add: inplace_and_def nth_append)

lemma PreCheckOverflow_no_overflow:
  "\<not> is_integral T \<or> (\<exists>v. val e = Int64Val v \<and> \<not> out_of_range T v)
     \<Longrightarrow> PreCheckOverflow seg T input e = (Inr None, e)"
  by (auto simp: PreCheckOverflow_def)

lemma PreCheckOverflow_overflow:
  assumes T: "is_integral T" and v: "val e = Int64Val v" and oor: "out_of_range T v"
      and n: "n = (case input of
                     Some offsets \<Rightarrow> int (length offsets)
                   | None \<Rightarrow> (if overflow_check_pos e + batch_size (base e) \<ge> active_count (base e)
                              then active_count (base e) - overflow_check_pos e
                              else batch_size (base e)))"
      and valid: "valid = (case input of
                     Some offsets \<Rightarrow> ProcessChunksForValidByOffsets seg (is_index_mode (base e)) offsets (base e)
                   | None \<Rightarrow> fst (ProcessChunksForValid seg (is_index_mode (base e)) (base e)))"
  shows "fst (PreCheckOverflow seg T input e) =
           (case overflow_switch (op_type e) T v (replicate (nat n) False) valid of
              Inl err \<Rightarrow> Inl err
            | Inr res \<Rightarrow> Inr (Some \<lparr>data = res, valid_data = valid\<rparr>))"
    and "calls (snd (PreCheckOverflow seg T input e)) = calls e @ [Valid_Scan]"
    and "fst (PreCheckOverflow seg T input e) \<noteq> Inr None"
  using assms
  by (cases input; cases "ProcessChunksForValid seg (is_index_mode (base e)) (base e)";
      simp add: PreCheckOverflow_def Let_def split: sum.splits)+


lemma ForIndex_precheck:
  "fst (PreCheckOverflow seg T None (init_arg e)) \<noteq> Inr None
     \<Longrightarrow> ExecRangeVisitorImplForIndex seg T e = PreCheckOverflow seg T None (init_arg e)"
  by (cases "PreCheckOverflow seg T None (init_arg e)")
     (auto simp: ExecRangeVisitorImplForIndex_def Let_def split: sum.splits option.splits)

lemma ForData_precheck:
  "fst (PreCheckOverflow seg T (offset_input context) e) \<noteq> Inr None
     \<Longrightarrow> ExecRangeVisitorImplForData seg T context e
         = PreCheckOverflow seg T (offset_input context) e"
  by (cases "PreCheckOverflow seg T (offset_input context) e")
     (auto simp: ExecRangeVisitorImplForData_def Let_def split: sum.splits option.splits)

lemma overflow_switch_relational:
  assumes "relational_op op"
  shows "overflow_switch op T v (replicate k False) valid =
           Inr (if (op = GreaterThan \<or> op = GreaterEqual) \<and> lt_lb T v
                   \<or> (op = LessThan \<or> op = LessEqual) \<and> gt_ub T v \<or> op = NotEqual
                then inplace_and (replicate k True) valid
                else replicate k False)"
  using assms by (auto simp: overflow_switch_def relational_op_def)

text \<open>
  C1. On an integral column, with a relational operator and an integer literal outside
  the range of the column type, \<open>PreCheckOverflow\<close> answers the batch without a scan of
  the values: for GreaterThan and GreaterEqual with a literal below the minimum, for
  LessThan and LessEqual with a literal above the maximum, and for NotEqual, the result
  bit of every row is its valid bit; for Equal (and in the remaining cases) every result
  bit is false. \<open>ExecRangeVisitorImplForIndex\<close> and \<open>ExecRangeVisitorImplForData\<close> both
  return this result, and the only call they have made is the one for the valid bitmap:
  neither the index scan nor the data scan has run.
\<close>

theorem overflow_precheck_short_circuits:
  assumes T: "is_integral T" and v: "val e = Int64Val v"
      and oor: "sint v < numeric_limits_min T \<or> numeric_limits_max T < sint v"
      and rel: "relational_op (op_type e)"
      and n: "n = (case input of
                     Some offsets \<Rightarrow> int (length offsets)
                   | None \<Rightarrow> (if overflow_check_pos e + batch_size (base e) \<ge> active_count (base e)
                              then active_count (base e) - overflow_check_pos e
                              else batch_size (base e)))"
      and valid: "valid = (case input of
                     Some offsets \<Rightarrow>
                       ProcessChunksForValidByOffsets seg (is_index_mode (base e)) offsets (base e)
                   | None \<Rightarrow> fst (ProcessChunksForValid seg (is_index_mode (base e)) (base e)))"
  shows "\<exists>res. fst (PreCheckOverflow seg T input e) = Inr (Some \<lparr>data = res, valid_data = valid\<rparr>)
           \<and> length res = nat n
           \<and> ((op_type e = GreaterThan \<or> op_type e = GreaterEqual) \<and> sint v < numeric_limits_min T
                \<or> (op_type e = LessThan \<or> op_type e = LessEqual) \<and> numeric_limits_max T < sint v
                \<or> op_type e = NotEqual
               \<longrightarrow> (\<forall>i < length res. i < length valid \<longrightarrow> res ! i = valid ! i))
           \<and> (op_type e = Equal
                \<or> (op_type e = GreaterThan \<or> op_type e = GreaterEqual) \<and> numeric_limits_max T < sint v
                \<or> (op_type e = LessThan \<or> op_type e = LessEqual) \<and> sint v < numeric_limits_min T
               \<longrightarrow> res = replicate (nat n) False)
           \<and> (input = None \<longrightarrow>
                 fst (ExecRangeVisitorImplForIndex seg T e)
                   = Inr (Some \<lparr>data = res, valid_data = valid\<rparr>)
               \<and> calls (snd (ExecRangeVisitorImplForIndex seg T e)) = calls e @ [Valid_Scan])
           \<and> (input = offset_input context \<longrightarrow>
                 fst (ExecRangeVisitorImplForData seg T context e)
                   = Inr (Some \<lparr>data = res, valid_data = valid\<rparr>)
               \<and> calls (snd (ExecRangeVisitorImplForData seg T context e)) = calls e @ [Valid_Scan])"
proof -
  let ?masked = "(op_type e = GreaterThan \<or> op_type e = GreaterEqual) \<and> lt_lb T v
                   \<or> (op_type e = LessThan \<or> op_type e = LessEqual) \<and> gt_ub T v
                   \<or> op_type e = NotEqual"
  let ?res = "if ?masked then inplace_and (replicate (nat n) True) valid
              else replicate (nat n) False"
  have out: "out_of_range T v" using oor by (auto simp: out_of_range_def lt_lb_def gt_ub_def)
  have lims: "numeric_limits_min T < numeric_limits_max T"
    using T by (auto simp: is_integral_def)
  have sw: "overflow_switch (op_type e) T v (replicate (nat n) False) valid = Inr ?res"
    using overflow_switch_relational [OF rel] by simp
  have p: "fst (PreCheckOverflow seg T input e) = Inr (Some \<lparr>data = ?res, valid_data = valid\<rparr>)"
    using PreCheckOverflow_overflow(1) [OF T v out n valid] sw by simp
  have c: "calls (snd (PreCheckOverflow seg T input e)) = calls e @ [Valid_Scan]"
    using PreCheckOverflow_overflow(2) [OF T v out n valid] .
  have len: "length ?res = nat n" by (simp add: inplace_and_length)
  have m: "(op_type e = GreaterThan \<or> op_type e = GreaterEqual) \<and> sint v < numeric_limits_min T
                \<or> (op_type e = LessThan \<or> op_type e = LessEqual) \<and> numeric_limits_max T < sint v
                \<or> op_type e = NotEqual
               \<longrightarrow> (\<forall>i < length ?res. i < length valid \<longrightarrow> ?res ! i = valid ! i)"
    by (auto simp: lt_lb_def gt_ub_def inplace_and_length inplace_and_all_true)
  have z: "op_type e = Equal
                \<or> (op_type e = GreaterThan \<or> op_type e = GreaterEqual) \<and> numeric_limits_max T < sint v
                \<or> (op_type e = LessThan \<or> op_type e = LessEqual) \<and> sint v < numeric_limits_min T
               \<longrightarrow> ?res = replicate (nat n) False"
    using lims by (auto simp: lt_lb_def gt_ub_def)
  have idx: "input = None \<longrightarrow>
                 fst (ExecRangeVisitorImplForIndex seg T e)
                   = Inr (Some \<lparr>data = ?res, valid_data = valid\<rparr>)
               \<and> calls (snd (ExecRangeVisitorImplForIndex seg T e)) = calls e @ [Valid_Scan]"
  proof
    assume i: "input = None"
    have v': "val (init_arg e) = Int64Val v" using v by (simp add: init_arg_fields)
    have n': "n = (case (None :: int list option) of
                     Some offsets \<Rightarrow> int (length offsets)
                   | None \<Rightarrow> (if overflow_check_pos (init_arg e) + batch_size (base (init_arg e))
                                    \<ge> active_count (base (init_arg e))
                              then active_count (base (init_arg e)) - overflow_check_pos (init_arg e)
                              else batch_size (base (init_arg e))))"
      using n i by (simp add: init_arg_fields)
    have valid': "valid = (case (None :: int list option) of
                     Some offsets \<Rightarrow>
                       ProcessChunksForValidByOffsets seg (is_index_mode (base (init_arg e))) offsets
                         (base (init_arg e))
                   | None \<Rightarrow> fst (ProcessChunksForValid seg (is_index_mode (base (init_arg e)))
                                     (base (init_arg e))))"
      using valid i by (simp add: init_arg_fields)
    note P = PreCheckOverflow_overflow [OF T v' out n' valid']
    have eq: "ExecRangeVisitorImplForIndex seg T e = PreCheckOverflow seg T None (init_arg e)"
      using P(3) by (rule ForIndex_precheck)
    show "fst (ExecRangeVisitorImplForIndex seg T e)
                   = Inr (Some \<lparr>data = ?res, valid_data = valid\<rparr>)
               \<and> calls (snd (ExecRangeVisitorImplForIndex seg T e)) = calls e @ [Valid_Scan]"
      using eq P(1,2) sw by (simp add: init_arg_fields calls_init_arg)
  qed
  have dat: "input = offset_input context \<longrightarrow>
                 fst (ExecRangeVisitorImplForData seg T context e)
                   = Inr (Some \<lparr>data = ?res, valid_data = valid\<rparr>)
               \<and> calls (snd (ExecRangeVisitorImplForData seg T context e)) = calls e @ [Valid_Scan]"
  proof
    assume i: "input = offset_input context"
    have "fst (PreCheckOverflow seg T (offset_input context) e) \<noteq> Inr None"
      using p i by simp
    then have "ExecRangeVisitorImplForData seg T context e
                 = PreCheckOverflow seg T (offset_input context) e"
      by (rule ForData_precheck)
    then show "fst (ExecRangeVisitorImplForData seg T context e)
                   = Inr (Some \<lparr>data = ?res, valid_data = valid\<rparr>)
               \<and> calls (snd (ExecRangeVisitorImplForData seg T context e)) = calls e @ [Valid_Scan]"
      using p c i by simp
  qed
  show ?thesis
    using p len m z idx dat by (intro exI [of _ ?res] conjI)
qed

theorem overflow_precheck_short_circuits_witness:
  "is_integral T_int8
   \<and> val (overflow_expr GreaterThan (- 1000)) = Int64Val (- 1000)
   \<and> sint (- 1000 :: 64 word) < numeric_limits_min T_int8
   \<and> relational_op (op_type (overflow_expr GreaterThan (- 1000)))
   \<and> fst (ExecRangeVisitorImplForIndex example_segment T_int8 (overflow_expr GreaterThan (- 1000)))
       = Inr (Some \<lparr>data = [True, True, False, True], valid_data = [True, True, False, True]\<rparr>)
   \<and> calls (snd (ExecRangeVisitorImplForIndex example_segment T_int8
                    (overflow_expr GreaterThan (- 1000)))) = [Valid_Scan]
   \<and> val (overflow_expr GreaterEqual 1000) = Int64Val 1000
   \<and> numeric_limits_max T_int8 < sint (1000 :: 64 word)
   \<and> relational_op (op_type (overflow_expr GreaterEqual 1000))
   \<and> fst (ExecRangeVisitorImplForData example_segment T_int8 offsets_ctx
             (overflow_expr GreaterEqual 1000))
       = Inr (Some \<lparr>data = [False, False, False], valid_data = [True, False, True]\<rparr>)"
proof -
  let ?e = "overflow_expr GreaterThan (- 1000)"
  let ?f = "overflow_expr GreaterEqual 1000"
  have T: "is_integral T_int8" by (simp add: is_integral_def)
  have v: "val ?e = Int64Val (- 1000)" by (simp add: overflow_expr_def)
  have lo: "sint (- 1000 :: 64 word) < numeric_limits_min T_int8" by simp
  have rel: "relational_op (op_type ?e)" by (simp add: overflow_expr_def relational_op_def)
  have op: "op_type ?e = GreaterThan" by (simp add: overflow_expr_def)
  have c: "calls ?e = []" by (simp add: overflow_expr_def example_expr_def)
  have n: "(case (None :: int list option) of
                     Some offsets \<Rightarrow> int (length offsets)
                   | None \<Rightarrow> (if overflow_check_pos ?e + batch_size (base ?e) \<ge> active_count (base ?e)
                              then active_count (base ?e) - overflow_check_pos ?e
                              else batch_size (base ?e))) = 4"
    by (simp add: overflow_expr_def example_expr_def example_base_def)
  have valid: "(case (None :: int list option) of
                     Some offsets \<Rightarrow>
                       ProcessChunksForValidByOffsets example_segment (is_index_mode (base ?e))
                         offsets (base ?e)
                   | None \<Rightarrow> fst (ProcessChunksForValid example_segment (is_index_mode (base ?e))
                                     (base ?e))) = [True, True, False, True]"
    by (simp add: example_segment_def)
  from overflow_precheck_short_circuits [OF T v disjI1 [OF lo] rel n [symmetric] valid [symmetric],
      of batch_ctx]
  obtain res where r: "fst (ExecRangeVisitorImplForIndex example_segment T_int8 ?e)
        = Inr (Some \<lparr>data = res, valid_data = [True, True, False, True]\<rparr>)"
      "calls (snd (ExecRangeVisitorImplForIndex example_segment T_int8 ?e)) = calls ?e @ [Valid_Scan]"
      "length res = 4"
      "\<forall>i < length res. i < length [True, True, False, True]
          \<longrightarrow> res ! i = [True, True, False, True] ! i"
    using op lo by auto
  have "res = [True, True, False, True]"
    using r(3,4) by (intro nth_equalityI) simp_all
  then have A: "fst (ExecRangeVisitorImplForIndex example_segment T_int8 ?e)
       = Inr (Some \<lparr>data = [True, True, False, True], valid_data = [True, True, False, True]\<rparr>)"
    "calls (snd (ExecRangeVisitorImplForIndex example_segment T_int8 ?e)) = [Valid_Scan]"
    using r(1,2) c by simp_all
  have v2: "val ?f = Int64Val 1000" by (simp add: overflow_expr_def)
  have hi: "numeric_limits_max T_int8 < sint (1000 :: 64 word)" by simp
  have rel2: "relational_op (op_type ?f)" by (simp add: overflow_expr_def relational_op_def)
  have op2: "op_type ?f = GreaterEqual" by (simp add: overflow_expr_def)
  have n2: "(case offset_input offsets_ctx of
                     Some offsets \<Rightarrow> int (length offsets)
                   | None \<Rightarrow> (if overflow_check_pos ?f + batch_size (base ?f) \<ge> active_count (base ?f)
                              then active_count (base ?f) - overflow_check_pos ?f
                              else batch_size (base ?f))) = 3"
    by (simp add: offsets_ctx_def)
  have valid2: "(case offset_input offsets_ctx of
                     Some offsets \<Rightarrow>
                       ProcessChunksForValidByOffsets example_segment (is_index_mode (base ?f))
                         offsets (base ?f)
                   | None \<Rightarrow> fst (ProcessChunksForValid example_segment (is_index_mode (base ?f))
                                     (base ?f))) = [True, False, True]"
    by (simp add: example_segment_def offsets_ctx_def)
  from overflow_precheck_short_circuits [OF T v2 disjI2 [OF hi] rel2 n2 [symmetric]
      valid2 [symmetric], of offsets_ctx]
  have B: "fst (ExecRangeVisitorImplForData example_segment T_int8 offsets_ctx ?f)
       = Inr (Some \<lparr>data = [False, False, False], valid_data = [True, False, True]\<rparr>)"
    using op2 hi by (auto simp: numeral_3_eq_3)
  show ?thesis
    using T v lo rel A v2 hi rel2 B by simp
qed

subsection \<open>The n-gram index declines\<close>

lemma value_arg_init_arg: "value_arg (init_arg e) = effective_arg e"
  by (simp add: init_arg_def effective_arg_def)

lemma effective_arg_init_arg: "effective_arg (init_arg e) = effective_arg e"
  by (simp add: init_arg_def effective_arg_def)

lemma same_query_refl: "same_query e e"
  by (simp add: same_query_def)

lemma same_query_init_arg: "same_query e e' \<Longrightarrow> same_query (init_arg e) (init_arg e')"
  by (simp add: same_query_def init_arg_fields effective_arg_init_arg)

lemma same_query_init_arg_left: "same_query e (init_arg e)"
  by (simp add: same_query_def init_arg_fields effective_arg_init_arg)

lemma effective_arg_base: "effective_arg (e\<lparr>base := b\<rparr>) = effective_arg e"
  by (simp add: effective_arg_def)

lemma effective_arg_calls: "effective_arg (e\<lparr>calls := c\<rparr>) = effective_arg e"
  by (simp add: effective_arg_def)

lemma same_query_calls: "same_query e e' \<Longrightarrow> same_query e (e'\<lparr>calls := c\<rparr>)"
  by (simp add: same_query_def effective_arg_calls)

lemma PreCheckOverflow_same_query:
  assumes "same_query e e'"
  shows "fst (PreCheckOverflow seg T input e') = fst (PreCheckOverflow seg T input e)
       \<and> same_query (snd (PreCheckOverflow seg T input e)) (snd (PreCheckOverflow seg T input e'))"
proof -
  have f: "base e' = base e" "op_type e' = op_type e" "val e' = val e"
    "overflow_check_pos e' = overflow_check_pos e"
    using assms by (simp_all add: same_query_def)
  show ?thesis
  proof (cases "is_integral T \<and> (\<exists>v. val e = Int64Val v \<and> out_of_range T v)")
    case False
    then have "PreCheckOverflow seg T input e = (if is_integral T \<and> (\<forall>v. val e \<noteq> Int64Val v) then (Inl Unknown, e) else (Inr None, e))"
      "PreCheckOverflow seg T input e' = (if is_integral T \<and> (\<forall>v. val e \<noteq> Int64Val v) then (Inl Unknown, e') else (Inr None, e'))"
      using f by (auto simp: PreCheckOverflow_def split: GenericValue.splits)
    then show ?thesis using assms by simp
  next
    case True
    then obtain v where T: "is_integral T" and v: "val e = Int64Val v" and o: "out_of_range T v"
      by auto
    have v': "val e' = Int64Val v" using v f by simp
    define n where "n = (case input of
                     Some offsets \<Rightarrow> int (length offsets)
                   | None \<Rightarrow> (if overflow_check_pos e + batch_size (base e) \<ge> active_count (base e)
                              then active_count (base e) - overflow_check_pos e
                              else batch_size (base e)))"
    define valid where "valid = (case input of
                     Some offsets \<Rightarrow>
                       ProcessChunksForValidByOffsets seg (is_index_mode (base e)) offsets (base e)
                   | None \<Rightarrow> fst (ProcessChunksForValid seg (is_index_mode (base e)) (base e)))"
    have n': "n = (case input of
                     Some offsets \<Rightarrow> int (length offsets)
                   | None \<Rightarrow> (if overflow_check_pos e' + batch_size (base e') \<ge> active_count (base e')
                              then active_count (base e') - overflow_check_pos e'
                              else batch_size (base e')))"
      unfolding n_def f ..
    have valid': "valid = (case input of
                     Some offsets \<Rightarrow>
                       ProcessChunksForValidByOffsets seg (is_index_mode (base e')) offsets (base e')
                   | None \<Rightarrow> fst (ProcessChunksForValid seg (is_index_mode (base e')) (base e')))"
      unfolding valid_def f ..
    note A = PreCheckOverflow_overflow(1) [OF T v o n_def valid_def]
    note B = PreCheckOverflow_overflow(1) [OF T v' o n' valid']
    have r: "fst (PreCheckOverflow seg T input e') = fst (PreCheckOverflow seg T input e)"
      unfolding A B f(2) ..
    have s: "same_query (snd (PreCheckOverflow seg T input e)) (snd (PreCheckOverflow seg T input e'))"
      using assms T v v' o f
      by (cases input; cases "ProcessChunksForValid seg (is_index_mode (base e)) (base e)")
         (auto simp: PreCheckOverflow_def Let_def same_query_def effective_arg_def split: sum.splits)
    show ?thesis using r s by simp
  qed
qed

lemma PreCheckOverflow_arg:
  "value_arg (snd (PreCheckOverflow seg T input e)) = value_arg e
   \<and> arg_inited (snd (PreCheckOverflow seg T input e)) = arg_inited e"
  by (cases input; cases "ProcessChunksForValid seg (is_index_mode (base e)) (base e)")
     (auto simp: PreCheckOverflow_def Let_def split: sum.splits GenericValue.splits)


lemma ForIndex_same_query:
  assumes sq: "same_query e e'"
  shows "fst (ExecRangeVisitorImplForIndex seg T e') = fst (ExecRangeVisitorImplForIndex seg T e)
       \<and> base (snd (ExecRangeVisitorImplForIndex seg T e'))
           = base (snd (ExecRangeVisitorImplForIndex seg T e))"
proof -
  obtain r e2 where p: "PreCheckOverflow seg T None (init_arg e) = (r, e2)"
    by (cases "PreCheckOverflow seg T None (init_arg e)")
  obtain r' e2' where p': "PreCheckOverflow seg T None (init_arg e') = (r', e2')"
    by (cases "PreCheckOverflow seg T None (init_arg e')")
  have "fst (PreCheckOverflow seg T None (init_arg e')) = fst (PreCheckOverflow seg T None (init_arg e))
       \<and> same_query (snd (PreCheckOverflow seg T None (init_arg e)))
                     (snd (PreCheckOverflow seg T None (init_arg e')))"
    using same_query_init_arg [OF sq] by (rule PreCheckOverflow_same_query)
  then have r: "r' = r" and s2: "same_query e2 e2'" using p p' by simp_all
  have "value_arg e2 = effective_arg e" "value_arg e2' = effective_arg e'"
    using PreCheckOverflow_arg [of seg T None "init_arg e"]
      PreCheckOverflow_arg [of seg T None "init_arg e'"] p p'
    by (simp_all add: value_arg_init_arg)
  then have va: "value_arg e2' = value_arg e2" using sq by (simp add: same_query_def)
  have f: "base e2' = base e2" "op_type e2' = op_type e2"
    using s2 by (simp_all add: same_query_def)
  show ?thesis
    unfolding ExecRangeVisitorImplForIndex_def Let_def p p' r
    by (cases r; simp add: f va split: option.splits sum.splits)
qed

lemma ForData_same_query:
  assumes sq: "same_query e e'"
  shows "fst (ExecRangeVisitorImplForData seg T context e')
           = fst (ExecRangeVisitorImplForData seg T context e)
       \<and> base (snd (ExecRangeVisitorImplForData seg T context e'))
           = base (snd (ExecRangeVisitorImplForData seg T context e))"
proof -
  obtain r e1 where p: "PreCheckOverflow seg T (offset_input context) e = (r, e1)"
    by (cases "PreCheckOverflow seg T (offset_input context) e")
  obtain r' e1' where p': "PreCheckOverflow seg T (offset_input context) e' = (r', e1')"
    by (cases "PreCheckOverflow seg T (offset_input context) e'")
  have "fst (PreCheckOverflow seg T (offset_input context) e')
          = fst (PreCheckOverflow seg T (offset_input context) e)
       \<and> same_query (snd (PreCheckOverflow seg T (offset_input context) e))
                     (snd (PreCheckOverflow seg T (offset_input context) e'))"
    using sq by (rule PreCheckOverflow_same_query)
  then have r: "r' = r" and s1: "same_query e1 e1'" using p p' by simp_all
  have f: "base e1' = base e1" "op_type e1' = op_type e1" "val e1' = val e1"
    using s1 by (simp_all add: same_query_def)
  show ?thesis
    unfolding ExecRangeVisitorImplForData_def Let_def p p' r
    by (cases r; simp add: f init_arg_fields split: option.splits sum.splits)
qed

lemma normal_path_same_query:
  assumes sq: "same_query e e'"
  shows "fst (normal_path seg T context e') = fst (normal_path seg T context e)
       \<and> base (snd (normal_path seg T context e')) = base (snd (normal_path seg T context e))"
proof -
  have f: "base e' = base e" "op_type e' = op_type e" using sq by (simp_all add: same_query_def)
  define u where "u = (is_index_mode (base e) \<and> SegmentExpr_CanUseIndex seg T (op_type e))"
  let ?e1 = "e\<lparr>base := (base e)\<lparr>use_index := u\<rparr>\<rparr>"
  let ?e1' = "e'\<lparr>base := (base e)\<lparr>use_index := u\<rparr>\<rparr>"
  have s1: "same_query ?e1 ?e1'"
    using sq by (simp add: same_query_def effective_arg_base)
  have np: "normal_path seg T context e =
              (if u \<and> \<not> has_offset_input (base e) then ExecRangeVisitorImplForIndex seg T ?e1
               else ExecRangeVisitorImplForData seg T context ?e1)"
    by (simp add: normal_path_def CanUseIndex_def Let_def u_def)
  have np': "normal_path seg T context e' =
              (if u \<and> \<not> has_offset_input (base e) then ExecRangeVisitorImplForIndex seg T ?e1'
               else ExecRangeVisitorImplForData seg T context ?e1')"
    by (simp add: normal_path_def CanUseIndex_def Let_def u_def f)
  show ?thesis
    unfolding np np'
    using ForIndex_same_query [OF s1, of seg T] ForData_same_query [OF s1, of seg T "context"]
    by (cases u; cases "has_offset_input (base e)"; simp)
qed

lemma ngram_index_init_arg:
  "ngram_index_ExecuteQuery seg (init_arg e) = ngram_index_ExecuteQuery seg e"
  by (simp add: ngram_index_ExecuteQuery_def init_arg_fields)

lemma ngram_index_SetHasOffsetInput:
  "ngram_index_ExecuteQuery seg (SetHasOffsetInput b e) = ngram_index_ExecuteQuery seg e"
  by (simp add: ngram_index_ExecuteQuery_def SetHasOffsetInput_fields)

lemma ExecNgramMatch_declined:
  assumes lit: "val e = StringVal literal"
      and arg: "arg_inited e \<longrightarrow> value_arg e = val e"
      and none: "cached_ngram_match_res e = None"
      and decl: "ngram_index_ExecuteQuery seg e literal (op_type e) = None"
  shows "\<exists>e1. ExecNgramMatch seg e = (Inr None, e1) \<and> same_query e e1"
proof -
  have va: "value_arg (init_arg e) = StringVal literal"
    using lit arg by (simp add: init_arg_def)
  show ?thesis
  proof (cases "GetNextBatchSize seg (base e) = 0")
    case True
    then have "ExecNgramMatch seg e = (Inr None, init_arg e)"
      using va by (simp add: ExecNgramMatch_def Let_def init_arg_fields)
    then show ?thesis using same_query_init_arg_left by blast
  next
    case False
    let ?e1 = "(init_arg e)\<lparr>calls := calls (init_arg e)
                 @ [NgramIndex_ExecuteQuery literal (op_type e)]\<rparr>"
    have "ExecNgramMatch seg e = (Inr None, ?e1)"
      using va False none decl
      by (simp add: ExecNgramMatch_def Let_def init_arg_fields ngram_index_init_arg)
    moreover have "same_query e ?e1"
      using same_query_init_arg_left by (rule same_query_calls)
    ultimately show ?thesis by blast
  qed
qed

lemma ngram_decline_scalar:
  assumes can: "CanExecNgramMatch seg e (op_type e)"
      and lit: "val e = StringVal literal"
      and arg: "arg_inited e \<longrightarrow> value_arg e = val e"
      and none: "cached_ngram_match_res e = None"
      and decl: "ngram_index_ExecuteQuery seg e literal (op_type e) = None"
  shows "fst (ExecRangeVisitorImpl seg T context e) =
           (if is_index_mode (base e) \<and> SegmentExpr_CanUseIndex seg T (op_type e)
            then fst (ExecRangeVisitorImplForIndex seg T (snd (CanUseIndex seg T e)))
            else fst (ExecRangeVisitorImplForData seg T context (snd (CanUseIndex seg T e))))
       \<and> base (snd (ExecRangeVisitorImpl seg T context e))
           = base (snd (normal_path seg T context e))"
proof -
  have ops: "op_type e \<noteq> TextMatch" "op_type e \<noteq> PhraseMatch" "\<not> has_offset_input (base e)"
    using can by (auto simp: CanExecNgramMatch_def ngram_op_def)
  obtain e1 where n: "ExecNgramMatch seg e = (Inr None, e1)" and sq: "same_query e e1"
    using ExecNgramMatch_declined [OF lit arg none decl] by blast
  have ex: "ExecRangeVisitorImpl seg T context e = normal_path seg T context e1"
    using ops can n by (simp add: ExecRangeVisitorImpl_def)
  have np: "fst (normal_path seg T context e) =
           (if is_index_mode (base e) \<and> SegmentExpr_CanUseIndex seg T (op_type e)
            then fst (ExecRangeVisitorImplForIndex seg T (snd (CanUseIndex seg T e)))
            else fst (ExecRangeVisitorImplForData seg T context (snd (CanUseIndex seg T e))))"
    using ops(3) by (simp add: normal_path_def CanUseIndex_def Let_def)
  show ?thesis
    using normal_path_same_query [OF sq, of seg T "context"] ex np by simp
qed

lemma Json_same_query:
  assumes sq: "same_query e e'"
  shows "fst (ExecRangeVisitorImplJson seg context e') = fst (ExecRangeVisitorImplJson seg context e)
       \<and> base (snd (ExecRangeVisitorImplJson seg context e'))
           = base (snd (ExecRangeVisitorImplJson seg context e))"
proof -
  have f: "base e' = base e" "op_type e' = op_type e" "nested_path e' = nested_path e"
    "val e' = val e"
    using sq by (simp_all add: same_query_def)
  have va: "value_arg (init_arg e') = value_arg (init_arg e)"
    using sq by (simp add: value_arg_init_arg same_query_def)
  obtain rows valid_rows b' where c: "JsonDataChunks seg (base e) = ((rows, valid_rows), b')"
    by (metis surj_pair)
  show ?thesis
  proof (cases "offset_input context")
    case None
    show ?thesis
      unfolding ExecRangeVisitorImplJson_def ExecRangeVisitorImplJsonForIndex_def Let_def
      by (simp add: None f va c init_arg_fields split: sum.splits)
  next
    case (Some offsets)
    obtain rows' valid_rows' where o: "JsonDataByOffsets seg offsets (base e) = (rows', valid_rows')"
      by (metis surj_pair)
    show ?thesis
      unfolding ExecRangeVisitorImplJson_def ExecRangeVisitorImplJsonForIndex_def Let_def
      by (cases "has_offset_input (base e)")
         (simp_all add: Some f va c o init_arg_fields split: sum.splits)
  qed
qed

lemma Eval_json_normal_same_query:
  assumes sq: "same_query e e'"
  shows "fst (Eval_json_normal seg context e') = fst (Eval_json_normal seg context e)
       \<and> base (snd (Eval_json_normal seg context e')) = base (snd (Eval_json_normal seg context e))"
proof -
  have f: "base e' = base e" "op_type e' = op_type e" "val e' = val e"
    using sq by (simp_all add: same_query_def)
  define vt where "vt = FromValCase (val_case (val e))"
  define u where "u = fst (CanUseIndexForJson seg vt e)"
  let ?e1 = "e\<lparr>base := (base e)\<lparr>use_index := u\<rparr>\<rparr>"
  let ?e1' = "e'\<lparr>base := (base e)\<lparr>use_index := u\<rparr>\<rparr>"
  have c: "CanUseIndexForJson seg vt e = (u, ?e1)" "CanUseIndexForJson seg vt e' = (u, ?e1')"
    by (simp_all add: u_def CanUseIndexForJson_def Let_def f)
  have s1: "same_query ?e1 ?e1'"
    using sq by (simp add: same_query_def effective_arg_base)
  have s2: "same_query (?e1\<lparr>value_arg := x, arg_inited := True\<rparr>)
                       (?e1'\<lparr>value_arg := x, arg_inited := True\<rparr>)" for x
    using sq by (simp add: same_query_def effective_arg_def)
  have v1: "val ?e1 = val e" "val ?e1' = val e" "has_offset_input (base ?e1') = has_offset_input (base ?e1)"
    using f by simp_all
  show ?thesis
    unfolding Eval_json_normal_def Let_def vt_def [symmetric] f c prod.case v1
    using ForIndex_same_query [OF s1, of seg] ForIndex_same_query [OF s2, of seg]
      Json_same_query [OF s1, of seg "context"]
    by (cases u; cases "has_offset_input (base e)"; cases "val e"; simp)
qed

text \<open>
  C7. The n-gram strategy applies to a scalar column (\<open>ExecRangeVisitorImpl\<close>) and to a
  JSON column with a string literal (\<open>Eval\<close>); \<open>e0\<close> is the expression as \<open>Eval\<close>
  sets it up, and the strategy applies only without row offsets. When the n-gram index
  of the column declines the query of a batch (\<open>ExecuteQuery\<close> returns no bitmap), the
  evaluation goes on to the normal path, and the batch it returns, result bitmap and
  valid bitmap, is the one that the normal path returns for the same batch: on a scalar
  column the index scan (when the column can use its index) or else the data scan; on a
  JSON column the scan of the scalar index of the path, or else \<open>ExecRangeVisitorImplJson\<close>.
  The cursors of the base class end in the same state. The literal of the expression is a
  string, and \<open>value_arg_\<close>, once initialised, holds the literal of the plan, as
  \<open>SetValue\<close> of the literal leaves it.
\<close>

theorem ngram_decline_falls_through:
  fixes seg :: Segment and ctx :: EvalCtx and e :: PhyUnaryRangeFilterExpr
  defines "e0 \<equiv> SetHasOffsetInput (offset_input ctx \<noteq> None) e"
  assumes lit: "val e = StringVal literal"
      and arg: "arg_inited e \<longrightarrow> value_arg e = val e"
      and none: "cached_ngram_match_res e = None"
      and decl: "ngram_index_ExecuteQuery seg e literal (op_type e) = None"
  shows "(CanExecNgramMatch seg e (op_type e) \<longrightarrow>
            fst (ExecRangeVisitorImpl seg T ctx e) =
              (if is_index_mode (base e) \<and> SegmentExpr_CanUseIndex seg T (op_type e)
               then fst (ExecRangeVisitorImplForIndex seg T (snd (CanUseIndex seg T e)))
               else fst (ExecRangeVisitorImplForData seg T ctx (snd (CanUseIndex seg T e))))
          \<and> base (snd (ExecRangeVisitorImpl seg T ctx e))
              = base (snd (normal_path seg T ctx e)))
       \<and> (scalar_elem_type seg (column_data_type e) = Some T
            \<and> CanExecNgramMatch seg e0 (op_type e) \<longrightarrow>
            fst (Eval seg ctx e) =
              (if is_index_mode (base e) \<and> SegmentExpr_CanUseIndex seg T (op_type e)
               then fst (ExecRangeVisitorImplForIndex seg T (snd (CanUseIndex seg T e0)))
               else fst (ExecRangeVisitorImplForData seg T ctx (snd (CanUseIndex seg T e0))))
          \<and> base (snd (Eval seg ctx e)) = base (snd (normal_path seg T ctx e0)))
       \<and> (column_data_type e = JSON \<and> CanExecNgramMatchForJson seg e0 VARCHAR \<longrightarrow>
            fst (Eval seg ctx e) =
              (if fst (CanUseIndexForJson seg VARCHAR e0)
               then fst (ExecRangeVisitorImplForIndex seg T_string
                           (snd (CanUseIndexForJson seg VARCHAR e0)))
               else fst (ExecRangeVisitorImplJson seg ctx
                           (snd (CanUseIndexForJson seg VARCHAR e0))))
          \<and> base (snd (Eval seg ctx e)) = base (snd (Eval_json_normal seg ctx e0)))"
proof (intro conjI impI)
  assume can: "CanExecNgramMatch seg e (op_type e)"
  note A = ngram_decline_scalar [OF can lit arg none decl, of T ctx]
  show "fst (ExecRangeVisitorImpl seg T ctx e) =
              (if is_index_mode (base e) \<and> SegmentExpr_CanUseIndex seg T (op_type e)
               then fst (ExecRangeVisitorImplForIndex seg T (snd (CanUseIndex seg T e)))
               else fst (ExecRangeVisitorImplForData seg T ctx (snd (CanUseIndex seg T e))))"
    using A by (rule conjunct1)
  show "base (snd (ExecRangeVisitorImpl seg T ctx e)) = base (snd (normal_path seg T ctx e))"
    using A by (rule conjunct2)
next
  assume a: "scalar_elem_type seg (column_data_type e) = Some T
            \<and> CanExecNgramMatch seg e0 (op_type e)"
  have can: "CanExecNgramMatch seg e0 (op_type e0)"
    using a by (simp add: e0_def SetHasOffsetInput_fields)
  have lit0: "val e0 = StringVal literal" using lit by (simp add: e0_def SetHasOffsetInput_fields)
  have arg0: "arg_inited e0 \<longrightarrow> value_arg e0 = val e0"
    using arg by (simp add: e0_def SetHasOffsetInput_fields)
  have none0: "cached_ngram_match_res e0 = None"
    using none by (simp add: e0_def SetHasOffsetInput_fields)
  have decl0: "ngram_index_ExecuteQuery seg e0 literal (op_type e0) = None"
    using decl by (simp add: e0_def ngram_index_SetHasOffsetInput SetHasOffsetInput_fields)
  note A = ngram_decline_scalar [OF can lit0 arg0 none0 decl0, of T ctx]
  have ev: "Eval seg ctx e = ExecRangeVisitorImpl seg T ctx e0"
    using a Eval_scalar [of seg e T ctx] by (simp add: e0_def)
  show "fst (Eval seg ctx e) =
              (if is_index_mode (base e) \<and> SegmentExpr_CanUseIndex seg T (op_type e)
               then fst (ExecRangeVisitorImplForIndex seg T (snd (CanUseIndex seg T e0)))
               else fst (ExecRangeVisitorImplForData seg T ctx (snd (CanUseIndex seg T e0))))"
    using A [THEN conjunct1] ev by (simp add: e0_def SetHasOffsetInput_fields)
  show "base (snd (Eval seg ctx e)) = base (snd (normal_path seg T ctx e0))"
    using A [THEN conjunct2] ev by simp
next
  assume a: "column_data_type e = JSON \<and> CanExecNgramMatchForJson seg e0 VARCHAR"
  have no: "\<not> has_offset_input (base e0)" using a by (simp add: CanExecNgramMatchForJson_def)
  have lit0: "val e0 = StringVal literal" using lit by (simp add: e0_def SetHasOffsetInput_fields)
  have arg0: "arg_inited e0 \<longrightarrow> value_arg e0 = val e0"
    using arg by (simp add: e0_def SetHasOffsetInput_fields)
  have none0: "cached_ngram_match_res e0 = None"
    using none by (simp add: e0_def SetHasOffsetInput_fields)
  have decl0: "ngram_index_ExecuteQuery seg e0 literal (op_type e0) = None"
    using decl by (simp add: e0_def ngram_index_SetHasOffsetInput SetHasOffsetInput_fields)
  obtain e1 where n: "ExecNgramMatch seg e0 = (Inr None, e1)" and sq: "same_query e0 e1"
    using ExecNgramMatch_declined [OF lit0 arg0 none0 decl0] by blast
  have ev: "Eval seg ctx e = Eval_json_normal seg ctx e1"
    using a no lit0 n
    by (simp add: Eval_def Let_def e0_def [symmetric] e0_def SetHasOffsetInput_fields)
  note B = Eval_json_normal_same_query [OF sq, of seg ctx]
  have nj: "fst (Eval_json_normal seg ctx e0) =
              (if fst (CanUseIndexForJson seg VARCHAR e0)
               then fst (ExecRangeVisitorImplForIndex seg T_string
                           (snd (CanUseIndexForJson seg VARCHAR e0)))
               else fst (ExecRangeVisitorImplJson seg ctx
                           (snd (CanUseIndexForJson seg VARCHAR e0))))"
    using lit0 no
    by (simp add: Eval_json_normal_def Let_def CanUseIndexForJson_def split: prod.splits)
  show "fst (Eval seg ctx e) =
              (if fst (CanUseIndexForJson seg VARCHAR e0)
               then fst (ExecRangeVisitorImplForIndex seg T_string
                           (snd (CanUseIndexForJson seg VARCHAR e0)))
               else fst (ExecRangeVisitorImplJson seg ctx
                           (snd (CanUseIndexForJson seg VARCHAR e0))))"
    using B [THEN conjunct1] ev nj by simp
  show "base (snd (Eval seg ctx e)) = base (snd (Eval_json_normal seg ctx e0))"
    using B [THEN conjunct2] ev by simp
qed

theorem ngram_decline_falls_through_witness:
  "val prefix_expr = StringVal ''ap''
   \<and> \<not> arg_inited prefix_expr
   \<and> cached_ngram_match_res prefix_expr = None
   \<and> ngram_index_ExecuteQuery example_segment prefix_expr ''ap'' (op_type prefix_expr) = None
   \<and> CanExecNgramMatch example_segment prefix_expr (op_type prefix_expr)
   \<and> scalar_elem_type example_segment (column_data_type prefix_expr) = Some T_string
   \<and> CanExecNgramMatch example_segment
         (SetHasOffsetInput (offset_input batch_ctx \<noteq> None) prefix_expr) (op_type prefix_expr)
   \<and> fst (ExecRangeVisitorImpl example_segment T_string batch_ctx prefix_expr)
       = fst (ExecRangeVisitorImplForData example_segment T_string batch_ctx
                (snd (CanUseIndex example_segment T_string prefix_expr)))
   \<and> fst (Eval example_segment batch_ctx prefix_expr)
       = Inr (Some \<lparr>data = [True, False, True, False], valid_data = [True, True, True, True]\<rparr>)
   \<and> val (json_expr PrefixMatch (StringVal ''1'')) = StringVal ''1''
   \<and> \<not> arg_inited (json_expr PrefixMatch (StringVal ''1''))
   \<and> cached_ngram_match_res (json_expr PrefixMatch (StringVal ''1'')) = None
   \<and> ngram_index_ExecuteQuery example_segment (json_expr PrefixMatch (StringVal ''1'')) ''1''
         (op_type (json_expr PrefixMatch (StringVal ''1''))) = None
   \<and> column_data_type (json_expr PrefixMatch (StringVal ''1'')) = JSON
   \<and> CanExecNgramMatchForJson example_segment
         (SetHasOffsetInput (offset_input batch_ctx \<noteq> None) (json_expr PrefixMatch (StringVal ''1'')))
         VARCHAR
   \<and> fst (Eval example_segment batch_ctx (json_expr PrefixMatch (StringVal ''1'')))
       = Inr (Some \<lparr>data = [False, True, False, False], valid_data = [True, True, True, True]\<rparr>)"
proof -
  let ?j = "json_expr PrefixMatch (StringVal ''1'')"
  have lit: "val prefix_expr = StringVal ''ap''" by (simp add: prefix_expr_def)
  have na: "\<not> arg_inited prefix_expr" by (simp add: prefix_expr_def example_expr_def)
  then have arg: "arg_inited prefix_expr \<longrightarrow> value_arg prefix_expr = val prefix_expr" by simp
  have none: "cached_ngram_match_res prefix_expr = None"
    by (simp add: prefix_expr_def example_expr_def)
  have decl: "ngram_index_ExecuteQuery example_segment prefix_expr ''ap'' (op_type prefix_expr) = None"
    by (simp add: ngram_index_ExecuteQuery_def example_segment_def prefix_expr_def)
  have can: "CanExecNgramMatch example_segment prefix_expr (op_type prefix_expr)"
    by (simp add: CanExecNgramMatch_def ngram_op_def prefix_expr_def example_expr_def
        example_base_def example_segment_def)
  have T: "scalar_elem_type example_segment (column_data_type prefix_expr) = Some T_string"
    by (simp add: scalar_elem_type_def prefix_expr_def example_segment_def)
  have can0: "CanExecNgramMatch example_segment
         (SetHasOffsetInput (offset_input batch_ctx \<noteq> None) prefix_expr) (op_type prefix_expr)"
    by (simp add: CanExecNgramMatch_def ngram_op_def prefix_expr_def example_expr_def
        example_base_def example_segment_def SetHasOffsetInput_def batch_ctx_def)
  have im: "\<not> is_index_mode (base prefix_expr)"
    by (simp add: prefix_expr_def example_expr_def example_base_def)
  note A = ngram_decline_falls_through [OF lit arg none decl, where T = T_string
      and ctx = batch_ctx]
  have a1: "fst (ExecRangeVisitorImpl example_segment T_string batch_ctx prefix_expr)
       = fst (ExecRangeVisitorImplForData example_segment T_string batch_ctx
                (snd (CanUseIndex example_segment T_string prefix_expr)))"
    using A [THEN conjunct1, rule_format, OF can, THEN conjunct1] im by simp
  have a2: "fst (Eval example_segment batch_ctx prefix_expr)
       = fst (ExecRangeVisitorImplForData example_segment T_string batch_ctx
                (snd (CanUseIndex example_segment T_string
                   (SetHasOffsetInput (offset_input batch_ctx \<noteq> None) prefix_expr))))"
    using A [THEN conjunct2, THEN conjunct1, rule_format, OF conjI, OF T can0, THEN conjunct1] im
    by simp
  have a3: "fst (ExecRangeVisitorImplForData example_segment T_string batch_ctx
                (snd (CanUseIndex example_segment T_string
                   (SetHasOffsetInput (offset_input batch_ctx \<noteq> None) prefix_expr))))
       = Inr (Some \<lparr>data = [True, False, True, False], valid_data = [True, True, True, True]\<rparr>)"
    by (simp add: ExecRangeVisitorImplForData_def PreCheckOverflow_def is_integral_def
        CanUseIndex_def SetHasOffsetInput_def scan_op_def init_arg_def Let_def batch_ctx_def
        prefix_expr_def example_expr_def example_base_def example_segment_def
        example_next_batch_def eval_nat_numeral)
  have lit': "val ?j = StringVal ''1''" by (simp add: json_expr_def)
  have na': "\<not> arg_inited ?j" by (simp add: json_expr_def example_expr_def)
  then have arg': "arg_inited ?j \<longrightarrow> value_arg ?j = val ?j" by simp
  have none': "cached_ngram_match_res ?j = None" by (simp add: json_expr_def example_expr_def)
  have decl': "ngram_index_ExecuteQuery example_segment ?j ''1'' (op_type ?j) = None"
    by (simp add: ngram_index_ExecuteQuery_def example_segment_def json_expr_def)
  have js: "column_data_type ?j = JSON" by (simp add: json_expr_def)
  have canj: "CanExecNgramMatchForJson example_segment
         (SetHasOffsetInput (offset_input batch_ctx \<noteq> None) ?j) VARCHAR"
    by (simp add: CanExecNgramMatchForJson_def ngram_op_def json_expr_def example_expr_def
        example_base_def example_segment_def SetHasOffsetInput_def batch_ctx_def)
  note B = ngram_decline_falls_through [OF lit' arg' none' decl', where T = T_string
      and ctx = batch_ctx, THEN conjunct2, THEN conjunct2, rule_format, OF conjI,
      OF js canj, THEN conjunct1]
  have b1: "(if fst (CanUseIndexForJson example_segment VARCHAR
                      (SetHasOffsetInput (offset_input batch_ctx \<noteq> None) ?j))
               then fst (ExecRangeVisitorImplForIndex example_segment T_string
                           (snd (CanUseIndexForJson example_segment VARCHAR
                              (SetHasOffsetInput (offset_input batch_ctx \<noteq> None) ?j))))
               else fst (ExecRangeVisitorImplJson example_segment batch_ctx
                           (snd (CanUseIndexForJson example_segment VARCHAR
                              (SetHasOffsetInput (offset_input batch_ctx \<noteq> None) ?j)))))
       = Inr (Some \<lparr>data = [False, True, False, False], valid_data = [True, True, True, True]\<rparr>)"
    by (simp add: ExecRangeVisitorImplJson_def CanUseIndexForJson_def SetHasOffsetInput_def
        scan_op_def relational_op_def json_sub_batch_def json_row_def
        json_compare_def UnaryRangeJSONCompare_def string_match_def at_string_def
        init_arg_def json_expr_def example_expr_def example_base_def
        example_segment_def example_next_batch_def batch_ctx_def Let_def upt_rec)
  have b2: "fst (Eval example_segment batch_ctx ?j)
       = Inr (Some \<lparr>data = [False, True, False, False], valid_data = [True, True, True, True]\<rparr>)"
    using B b1 by simp
  show ?thesis
    using lit na none decl can T can0 a1 a2 a3 lit' na' none' decl' js canj b2 by simp
qed

subsection \<open>Evaluation on row offsets\<close>

















subsection \<open>JSON data scan: a lookup that fails\<close>

lemma bit_length_le: "n < 2 ^ k \<Longrightarrow> bit_length n \<le> k"
proof (induction k arbitrary: n)
  case 0
  then show ?case by (simp add: bit_length.simps)
next
  case (Suc k)
  have "n div 2 < 2 ^ k" using Suc.prems by simp
  from Suc.IH [OF this] show ?case by (subst bit_length.simps) simp
qed

lemma double_of_int_exact: "\<bar>n\<bar> < 2 ^ 53 \<Longrightarrow> double_of_int n = of_int n"
proof -
  assume a: "\<bar>n\<bar> < 2 ^ 53"
  have "nat \<bar>n\<bar> < 2 ^ 53" using a by (simp add: nat_less_iff)
  then have "bit_length (nat \<bar>n\<bar>) \<le> 53" by (rule bit_length_le)
  then show ?thesis by (simp add: double_of_int_def Let_def)
qed

lemma bit_length_54: "bit_length 9007199254740993 = 54"
  by (simp add: bit_length.simps)

lemma double_of_int_rounds: "double_of_int (2 ^ 53 + 1) = 2 ^ 53"
  by (simp add: double_of_int_def Let_def bit_length_54)

text \<open>
  For a literal that is not an array, a row whose pointer does not resolve is false for
  every operator but NotEqual, and true for NotEqual; an int64 literal against a number
  that cannot be read as int64 is compared with the number read as a double, the literal
  converted to double.
\<close>

lemma json_row_lookup_failure:
  assumes "at_pointer doc pointer = None" and "\<forall>lit. v \<noteq> ArrayVal lit" and "v \<noteq> ValNotSet"
  shows "json_row seg op pointer v doc = Inr (op = NotEqual)"
  using assms
  by (cases v)
     (simp_all add: json_row_def json_compare_def UnaryRangeJSONCompare_def
        UnaryRangeJSONCompareNotEqual_def at_bool_def at_int64_def at_double_def at_string_def)

lemma json_row_int64_retried_as_double:
  assumes "at_int64 doc pointer = None" and "at_double doc pointer = Some d"
  shows "json_row seg op pointer (Int64Val i) doc =
           non_string_cmp op (compare_values op d (double_of_int (sint i)))"
  using assms
  by (cases "op = NotEqual")
     (simp_all add: json_row_def json_compare_def UnaryRangeJSONCompare_def
        UnaryRangeJSONCompareNotEqual_def)

text \<open>
  C5, at the input where the code departs from it. The row \<open>{}\<close> has no key \<open>k\<close>, so
  the lookup of the pointer fails. With the operator NotEqual and the integer literal 1
  the result bit of the row is true, as for every literal that is not an array
  (\<open>json_row_lookup_failure\<close>); with NotEqual and the array literal \<open>[1]\<close> the branch
  for array literals writes false. The batch of the example segment shows both: its
  last row is \<open>{}\<close>.
\<close>

theorem json_not_equal_array_literal_missing_key:
  "json_row seg NotEqual [''k''] (ArrayVal [Int64Val 1]) (JObject []) = Inr False
   \<and> json_row seg NotEqual [''k''] (Int64Val 1) (JObject []) = Inr True
   \<and> fst (Eval example_segment batch_ctx (json_expr NotEqual (ArrayVal [Int64Val 1])))
       = Inr (Some \<lparr>data = [False, False, False, False],
                    valid_data = [True, True, True, True]\<rparr>)
   \<and> fst (Eval example_segment batch_ctx (json_expr NotEqual (Int64Val 1)))
       = Inr (Some \<lparr>data = [False, True, False, True],
                    valid_data = [True, True, True, True]\<rparr>)"
proof -
  have a: "json_row seg NotEqual [''k''] (ArrayVal [Int64Val 1]) (JObject []) = Inr False"
    by (simp add: json_row_def get_array_def)
  have b: "json_row seg NotEqual [''k''] (Int64Val 1) (JObject []) = Inr True"
    by (simp add: json_row_def json_compare_def UnaryRangeJSONCompareNotEqual_def
        at_int64_def at_double_def)
  have one: "double_of_int 1 = 1" using double_of_int_exact [of 1] by simp
  have c: "fst (Eval example_segment batch_ctx (json_expr NotEqual (ArrayVal [Int64Val 1])))
       = Inr (Some \<lparr>data = [False, False, False, False],
                    valid_data = [True, True, True, True]\<rparr>)"
    by (simp add: Eval_def Eval_json_normal_def ExecRangeVisitorImplJson_def
        CanExecNgramMatchForJson_def CanUseIndexForJson_def SetHasOffsetInput_def
        scan_op_def relational_op_def json_sub_batch_def json_row_def
        get_array_def init_arg_def json_expr_def example_expr_def example_base_def
        example_segment_def example_next_batch_def batch_ctx_def Let_def upt_rec)
  have d: "fst (Eval example_segment batch_ctx (json_expr NotEqual (Int64Val 1)))
       = Inr (Some \<lparr>data = [False, True, False, True],
                    valid_data = [True, True, True, True]\<rparr>)"
    by (simp add: Eval_def Eval_json_normal_def ExecRangeVisitorImplJson_def
        CanExecNgramMatchForJson_def CanUseIndexForJson_def SetHasOffsetInput_def
        scan_op_def relational_op_def json_sub_batch_def json_row_def non_string_cmp_def
        json_compare_def UnaryRangeJSONCompareNotEqual_def compare_values_def one
        at_int64_def at_double_def init_arg_def json_expr_def example_expr_def example_base_def
        example_segment_def example_next_batch_def batch_ctx_def Let_def upt_rec)
  show ?thesis using a b c d by simp
qed
end
